theory Spec2Isabelle
  imports Main
begin

section \<open>The etcd service registry (lib/index.js)\<close>

text \<open>
  The registry keeps service records in an etcd store. Everything the class does to the
  outside world goes through the etcd client (\<open>set\<close>, \<open>get\<close>, \<open>getSync\<close>,
  \<open>watcher\<close>) and through \<open>setTimeout\<close>; the model records each such call in a log
  and takes the replies of the store from a reply function, so that a theorem holds for
  every behaviour of the store. A synchronous read keeps the event loop running while it
  waits, so the handlers the registry has left there (the callback of a cache reload, the
  watcher's handler) may run during the read; which of them run is taken from the world as
  well. The model follows lib/index.js. The variant of the class
  whose records carry their options has the same \<open>_saveService\<close>, \<open>_getService\<close>,
  \<open>getService\<close> and \<open>renew\<close>, a \<open>register\<close> of its own and \<open>getServiceNode\<close>, and
  no options key.
\<close>

subsection \<open>Node's \<open>path.join\<close> (POSIX)\<close>

text \<open>
  Keys are built with \<open>path.join\<close>. On POSIX it joins the non-empty arguments with a
  slash and normalises the result: empty and \<open>.\<close> segments are dropped, \<open>..\<close> removes
  the segment before it, a trailing slash is kept, and the empty path is \<open>.\<close>.
\<close>

fun split_slash :: "string \<Rightarrow> string list" where
  "split_slash [] = [[]]"
| "split_slash (c # cs) =
     (if c = CHR ''/'' then [] # split_slash cs
      else (case split_slash cs of
              [] \<Rightarrow> [[c]]
            | s # ss \<Rightarrow> (c # s) # ss))"

fun join_slash :: "string list \<Rightarrow> string" where
  "join_slash [] = []"
| "join_slash [s] = s"
| "join_slash (s # t # ss) = s @ ''/'' @ join_slash (t # ss)"

text \<open>
  \<open>normalizeString\<close>: the segments kept so far are held in reverse order;
  \<open>allowAboveRoot\<close> says whether a leading \<open>..\<close> may stay (a relative path).
\<close>

fun normalize_segments :: "bool \<Rightarrow> string list \<Rightarrow> string list \<Rightarrow> string list" where
  "normalize_segments allowAboveRoot res [] = rev res"
| "normalize_segments allowAboveRoot res (s # ss) =
     (if s = [] \<or> s = ''.'' then normalize_segments allowAboveRoot res ss
      else if s = ''..'' then
        (case res of
           [] \<Rightarrow> normalize_segments allowAboveRoot (if allowAboveRoot then [''..''] else []) ss
         | r # rs \<Rightarrow>
             if r = ''..'' then normalize_segments allowAboveRoot (''..'' # res) ss
             else normalize_segments allowAboveRoot rs ss)
      else normalize_segments allowAboveRoot (s # res) ss)"

definition normalize :: "string \<Rightarrow> string" where
  "normalize p =
     (if p = [] then ''.''
      else
        let isAbsolute = (hd p = CHR ''/'');
            trailingSeparator = (last p = CHR ''/'');
            q = join_slash (normalize_segments (\<not> isAbsolute) [] (split_slash p))
        in if q = [] then
             (if isAbsolute then ''/'' else if trailingSeparator then ''./'' else ''.'')
           else
             (if isAbsolute then ''/'' else []) @ q @ (if trailingSeparator then ''/'' else []))"

definition path_join :: "string list \<Rightarrow> string" where
  "path_join args =
     (let joined = join_slash (filter (\<lambda>a. a \<noteq> []) args)
      in if joined = [] then ''.'' else normalize joined)"

text \<open>
  \<open>path.basename\<close>: what follows the last slash, trailing slashes apart.
\<close>

definition path_basename :: "string \<Rightarrow> string" where
  "path_basename p =
     (let q = dropWhile (\<lambda>c. c = CHR ''/'') (rev p)
      in rev (takeWhile (\<lambda>c. c \<noteq> CHR ''/'') q))"

subsection \<open>Data model\<close>

text \<open>
  A service record (\<open>ServiceDefinition\<close>) has an id, a name and a connection blob; the
  variant that keeps the options inside the record extends it by an \<open>options\<close> field.
  The connection and the options are opaque to the registry.
\<close>

record 'c service =
  service_id :: string
  service_name :: string
  connection :: 'c

record ('c, 'o) service_with_options = "'c service" +
  service_options :: 'o

text \<open>
  The constructor's options object. A missing field is \<open>None\<close>; \<open>tll\<close> is the field
  the constructor writes.
\<close>

record registry_options =
  ttl :: "int option"
  tll :: "int option"

text \<open>What the store returns: a tree of nodes, in a body, beside an error.\<close>

datatype etcd_node =
  Node (node_key: string) (node_value: "string option") (node_nodes: "etcd_node list option")

record etcd_body =
  node :: "etcd_node option"

record etcd_result =
  err :: "string option"
  body :: "etcd_body option"

text \<open>The calls the registry issues, in the order it issues them.\<close>

record set_options =
  set_maxRetries :: nat
  set_ttl :: "int option"

datatype call =
    Set string string set_options
  | Get string bool
  | GetSync string bool
  | Watcher string
  | SetTimeout int

text \<open>
  What the event loop delivers while a synchronous read waits: the reply to a cache
  reload that is under way, whose callback then runs, or a change event of the watcher.
\<close>

datatype arrival = Reply | Change

text \<open>
  The world behind the hosts: the store's reply to a read, which may depend on how many
  calls were issued before it and on the key, and what arrives during the synchronous
  read issued as call number \<open>n\<close>.
\<close>

record world =
  answers :: "nat \<Rightarrow> string \<Rightarrow> etcd_result"
  events :: "nat \<Rightarrow> arrival list"

text \<open>
  The etcd client and the event loop it runs on: the replies and the arrivals of the
  world, the log of the calls the running operation issues, the number of cache reloads
  under way, the log of the calls that handlers issue while the event loop runs them, and
  the number of exceptions that have left a handler.
\<close>

record etcd =
  reply :: "nat \<Rightarrow> string \<Rightarrow> etcd_result"
  calls :: "call list"
  arrivals :: "nat \<Rightarrow> arrival list"
  loading :: nat
  background :: "call list"
  uncaught :: nat

text \<open>The registry object: the local cache, the options and the client.\<close>

record 'n registry =
  services :: "string \<Rightarrow> 'n list option"
  options :: registry_options
  etcd :: etcd

datatype error = Error string | NotFoundAnyNode | ParseFailure

definition SERVICES_KEY :: string where
  "SERVICES_KEY = ''services''"

definition SERVICES_OPTIONS_KEY :: string where
  "SERVICES_OPTIONS_KEY = ''services-options''"

definition TTL_SECONDS :: int where
  "TTL_SECONDS = 120"

subsection \<open>The etcd client\<close>

definition etcd_set :: "string \<Rightarrow> string \<Rightarrow> set_options \<Rightarrow> 'n registry \<Rightarrow> 'n registry" where
  "etcd_set k v opts r = r\<lparr>etcd := (etcd r)\<lparr>calls := calls (etcd r) @ [Set k v opts]\<rparr>\<rparr>"

definition etcd_get :: "string \<Rightarrow> bool \<Rightarrow> 'n registry \<Rightarrow> etcd_result \<times> 'n registry" where
  "etcd_get k recursive r =
     (reply (etcd r) (length (calls (etcd r))) k,
      r\<lparr>etcd := (etcd r)\<lparr>calls := calls (etcd r) @ [Get k recursive]\<rparr>\<rparr>)"

definition etcd_watcher :: "string \<Rightarrow> 'n registry \<Rightarrow> 'n registry" where
  "etcd_watcher k r = r\<lparr>etcd := (etcd r)\<lparr>calls := calls (etcd r) @ [Watcher k]\<rparr>\<rparr>"

definition setTimeout :: "int \<Rightarrow> 'n registry \<Rightarrow> 'n registry" where
  "setTimeout ms r = r\<lparr>etcd := (etcd r)\<lparr>calls := calls (etcd r) @ [SetTimeout ms]\<rparr>\<rparr>"

subsection \<open>The cache and its reloads\<close>

text \<open>
  \<open>_loadServices\<close> clears the cache and asks for the whole \<open>services\<close> tree; the reply
  comes later. The constructor calls it, and so does the watcher's handler; the read of
  the latter goes to the log of the handlers.
\<close>

definition loadServices_priv :: "bool \<Rightarrow> 'n registry \<Rightarrow> 'n registry" where
  "loadServices_priv in_handler r =
     (let r1 = r\<lparr>services := (\<lambda>name. None)\<rparr>;
          r2 = (if in_handler then
                  r1\<lparr>etcd := (etcd r1)\<lparr>background := background (etcd r1) @ [Get SERVICES_KEY True]\<rparr>\<rparr>
                else snd (etcd_get SERVICES_KEY True r1))
      in r2\<lparr>etcd := (etcd r2)\<lparr>loading := Suc (loading (etcd r2))\<rparr>\<rparr>)"

text \<open>
  The callback of that read. It returns on an error and on a reply without nodes; it
  throws when there is neither an error nor a body, and when a value does not
  deserialise, after it has stored the names before that value. An exception leaves the
  handler; the model counts it and goes on, and what the process does with it is not
  modelled.
\<close>

definition throw_uncaught :: "'n registry \<Rightarrow> 'n registry" where
  "throw_uncaught r = r\<lparr>etcd := (etcd r)\<lparr>uncaught := Suc (uncaught (etcd r))\<rparr>\<rparr>"

fun load_services :: "(string option \<Rightarrow> 'n option) \<Rightarrow> etcd_node list \<Rightarrow> 'n registry \<Rightarrow> 'n registry" where
  "load_services parse [] r = r"
| "load_services parse (service # rest) r =
     (let name = path_basename (node_key service)
      in case node_nodes service of
           None \<Rightarrow> load_services parse rest r
         | Some ns \<Rightarrow>
             (case those (map (\<lambda>node. parse (node_value node)) ns) of
                None \<Rightarrow> throw_uncaught r
              | Some nodes \<Rightarrow>
                  load_services parse rest (r\<lparr>services := (services r)(name := Some nodes)\<rparr>)))"

definition loadServices_callback ::
  "(string option \<Rightarrow> 'n option) \<Rightarrow> etcd_result \<Rightarrow> 'n registry \<Rightarrow> 'n registry" where
  "loadServices_callback parse result r =
     (case err result of
        Some e \<Rightarrow> r
      | None \<Rightarrow>
          (case body result of
             None \<Rightarrow> throw_uncaught r
           | Some tree \<Rightarrow>
               (case node tree of
                  None \<Rightarrow> r
                | Some nd \<Rightarrow>
                    (case node_nodes nd of
                       None \<Rightarrow> r
                     | Some ns \<Rightarrow> load_services parse ns r))))"

text \<open>
  One arrival. The reply to a reload runs the callback, when a reload is under way; a
  change event runs the watcher's handler, which is \<open>_loadServices\<close>.
\<close>

definition deliver :: "(string option \<Rightarrow> 'n option) \<Rightarrow> arrival \<Rightarrow> 'n registry \<Rightarrow> 'n registry" where
  "deliver parse a r =
     (case a of
        Change \<Rightarrow> loadServices_priv True r
      | Reply \<Rightarrow>
          (case loading (etcd r) of
             0 \<Rightarrow> r
           | Suc n \<Rightarrow>
               loadServices_callback parse
                 (reply (etcd r) (length (calls (etcd r))) SERVICES_KEY)
                 (r\<lparr>etcd := (etcd r)\<lparr>loading := n\<rparr>\<rparr>)))"

text \<open>
  \<open>getSync\<close>: the call is logged, the arrivals of the wait are delivered in their order,
  and the reply is returned. \<open>parse\<close> is the \<open>JsonUtils.parse\<close> of the handlers.
\<close>

definition etcd_getSync ::
  "(string option \<Rightarrow> 'n option) \<Rightarrow> string \<Rightarrow> bool \<Rightarrow> 'n registry \<Rightarrow> etcd_result \<times> 'n registry" where
  "etcd_getSync parse k recursive r =
     (let n = length (calls (etcd r));
          r1 = r\<lparr>etcd := (etcd r)\<lparr>calls := calls (etcd r) @ [GetSync k recursive]\<rparr>\<rparr>
      in (reply (etcd r) n k, fold (deliver parse) (arrivals (etcd r) n) r1))"

subsection \<open>Construction and writes\<close>

text \<open>
  \<open>a || b\<close> on an optional number: \<open>undefined\<close> and \<open>0\<close> are falsy.
\<close>

definition or_default :: "int option \<Rightarrow> int \<Rightarrow> int option" where
  "or_default a b = (case a of None \<Rightarrow> Some b | Some n \<Rightarrow> if n = 0 then Some b else Some n)"

text \<open>
  The constructor: an empty cache, the client, the options with \<open>tll\<close> set, then
  \<open>_initWatcher\<close>, which calls \<open>_loadServices\<close> and registers the watcher. When the
  constructor returns, the reload it started is under way.
\<close>

definition constructor :: "world \<Rightarrow> registry_options \<Rightarrow> 'n registry" where
  "constructor hosts opts =
     (let r = \<lparr>services = (\<lambda>name. None),
               options = opts\<lparr>tll := or_default (ttl opts) TTL_SECONDS\<rparr>,
               etcd = \<lparr>reply = answers hosts, calls = [], arrivals = events hosts,
                       loading = 0, background = [], uncaught = 0\<rparr>\<rparr>;
          r1 = loadServices_priv False r
      in etcd_watcher SERVICES_KEY r1)"

text \<open>\<open>_saveService\<close> and \<open>_saveServiceOptions\<close>; \<open>stringify\<close> is \<open>JsonUtils.stringify\<close>.\<close>

definition saveService_priv ::
  "(('c, 'z) service_scheme \<Rightarrow> string) \<Rightarrow> ('c, 'z) service_scheme \<Rightarrow> 'n registry \<Rightarrow> 'n registry" where
  "saveService_priv stringify service r =
     (let key = path_join [SERVICES_KEY, service_name service, service_id service]
      in etcd_set key (stringify service) \<lparr>set_maxRetries = 3, set_ttl = ttl (options r)\<rparr> r)"

definition saveServiceOptions_priv ::
  "('o \<Rightarrow> string) \<Rightarrow> string \<Rightarrow> 'o \<Rightarrow> 'n registry \<Rightarrow> 'n registry" where
  "saveServiceOptions_priv stringify serviceName opts r =
     (let key = path_join [SERVICES_OPTIONS_KEY, serviceName]
      in etcd_set key (stringify opts) \<lparr>set_maxRetries = 3, set_ttl = None\<rparr> r)"

text \<open>
  \<open>register\<close>; \<open>uuid\<close> is the value \<open>Random.uuid()\<close> returns. The first definition is
  lib/index.js, the second the variant whose records carry their options.
\<close>

definition register ::
  "('c service \<Rightarrow> string) \<Rightarrow> ('o \<Rightarrow> string) \<Rightarrow> string \<Rightarrow> string \<Rightarrow> 'c \<Rightarrow> 'o \<Rightarrow> 'n registry
     \<Rightarrow> string \<times> 'n registry" where
  "register stringify stringify_options uuid name connectionConfig opts r =
     (let service = \<lparr>service_id = uuid, service_name = name, connection = connectionConfig\<rparr>;
          r1 = saveService_priv stringify service r;
          r2 = saveServiceOptions_priv stringify_options (service_name service) opts r1
      in (service_id service, r2))"

definition register_with_options ::
  "(('c, 'o) service_with_options \<Rightarrow> string) \<Rightarrow> string \<Rightarrow> string \<Rightarrow> 'c \<Rightarrow> 'o \<Rightarrow> 'n registry
     \<Rightarrow> string \<times> 'n registry" where
  "register_with_options stringify uuid name connectionConfig opts r =
     (let service = \<lparr>service_id = uuid, service_name = name, connection = connectionConfig,
                      service_options = opts\<rparr>;
          r1 = saveService_priv stringify service r
      in (service_id service, r1))"

subsection \<open>Lookups\<close>

text \<open>
  \<open>_getService\<close>. The body of the \<open>try\<close> either returns a list or throws; what it
  throws is a value here. \<open>parse\<close> is \<open>JsonUtils.parse\<close> applied to a node's value
  (\<open>None\<close> for a node without a value); it returns the record, or \<open>None\<close> when it throws.
  Every attempt looks in the cache first, and the cache may have been reloaded during the
  read of the attempt before.
\<close>

definition getService_read :: "(string option \<Rightarrow> 'n option) \<Rightarrow> etcd_result \<Rightarrow> error + 'n list" where
  "getService_read parse result =
     (case err result of
        Some e \<Rightarrow> Inl (Error e)
      | None \<Rightarrow>
          (case body result of
             None \<Rightarrow> Inl NotFoundAnyNode
           | Some tree \<Rightarrow>
               (case node tree of
                  None \<Rightarrow> Inl NotFoundAnyNode
                | Some nd \<Rightarrow>
                    (case node_nodes nd of
                       None \<Rightarrow> Inl NotFoundAnyNode
                     | Some ns \<Rightarrow>
                         if length ns = 0 then Inl NotFoundAnyNode
                         else (case those (map (\<lambda>node. parse (node_value node)) ns) of
                                 None \<Rightarrow> Inl ParseFailure
                               | Some nodes \<Rightarrow> Inr nodes)))))"

definition getService_fetch ::
  "(string option \<Rightarrow> 'n option) \<Rightarrow> string \<Rightarrow> 'n registry \<Rightarrow> (error + 'n list) \<times> 'n registry" where
  "getService_fetch parse name r =
     (let key = path_join [SERVICES_KEY, name];
          (result, r') = etcd_getSync parse key True r
      in (getService_read parse result, r'))"

definition getService_try ::
  "(string option \<Rightarrow> 'n option) \<Rightarrow> string \<Rightarrow> 'n registry \<Rightarrow> (error + 'n list) \<times> 'n registry" where
  "getService_try parse name r =
     (case services r name of
        None \<Rightarrow> getService_fetch parse name r
      | Some nodes \<Rightarrow>
          if length nodes \<noteq> 0 then (Inr nodes, r) else getService_fetch parse name r)"

function getService_priv ::
  "(string option \<Rightarrow> 'n option) \<Rightarrow> int \<Rightarrow> string \<Rightarrow> 'n registry \<Rightarrow> 'n list option \<times> 'n registry" where
  "getService_priv parse maxRetries name r =
     (case getService_try parse name r of
        (Inr nodes, r') \<Rightarrow> (Some nodes, r')
      | (Inl error, r') \<Rightarrow>
          if maxRetries \<le> 0 then (None, r')
          else getService_priv parse (maxRetries - 1) name r')"
  by pat_completeness auto
termination
  by (relation "measure (\<lambda>(parse, maxRetries, name, r). nat maxRetries)") auto

definition getService ::
  "(string option \<Rightarrow> 'n option) \<Rightarrow> string \<Rightarrow> 'n registry \<Rightarrow> 'n list option \<times> 'n registry" where
  "getService parse name r = getService_priv parse 5 name r"

text \<open>\<open>renew\<close>: the lookup, the search for the id, and the write of the record found.\<close>

definition renew ::
  "(string option \<Rightarrow> ('c, 'z) service_scheme option) \<Rightarrow> (('c, 'z) service_scheme \<Rightarrow> string) \<Rightarrow>
     string \<Rightarrow> string \<Rightarrow> ('c, 'z) service_scheme registry \<Rightarrow> ('c, 'z) service_scheme registry" where
  "renew parse stringify name ident r =
     (let (nodes, r') = getService parse name r
      in case nodes of
           None \<Rightarrow> r'
         | Some ns \<Rightarrow>
             (case find (\<lambda>node. service_id node = ident) ns of
                None \<Rightarrow> r'
              | Some found \<Rightarrow> saveService_priv stringify found r'))"

text \<open>\<open>getServiceNode\<close>, of the variant whose records carry their options.\<close>

definition getServiceNode ::
  "(string option \<Rightarrow> 'n option) \<Rightarrow> string \<Rightarrow> 'n registry \<Rightarrow> 'n option \<times> 'n registry" where
  "getServiceNode parse name r =
     (let (nodes, r') = getService parse name r
      in ((case nodes of
             None \<Rightarrow> None
           | Some ns \<Rightarrow> if length ns \<noteq> 0 then Some (ns ! 0) else None), r'))"

subsection \<open>The options lookup\<close>

text \<open>
  \<open>_getServiceOptions\<close> returns a promise and starts the inner function, which reads the
  options key and, in the callback, either retries after a timer or resolves. A promise
  keeps the first value it is resolved with. One attempt is the read together with its
  callback. The options lookup never looks in the cache, so the reloads that run between
  its attempts do not bear on it and are left out. The callback parses
  \<open>body.node.value\<close> only behind the guard that the body and its node are there;
  \<open>parse\<close> may throw, and nothing in the callback catches it.
\<close>

datatype 'o promise = Pending | Resolved "'o option"

definition resolve :: "'o option \<Rightarrow> 'o promise \<Rightarrow> 'o promise" where
  "resolve v p = (case p of Pending \<Rightarrow> Resolved v | Resolved w \<Rightarrow> Resolved w)"

definition MAX_RETRIES :: int where
  "MAX_RETRIES = 10"

text \<open>
  What one attempt leaves behind: a timer that will run the next attempt with the given
  \<open>maxRetries\<close>, nothing, or an exception thrown in the store's callback.
\<close>

datatype left_behind = Scheduled int | Nothing | Thrown

definition read_failed :: "etcd_result \<Rightarrow> bool" where
  "read_failed result =
     (case err result of
        Some e \<Rightarrow> True
      | None \<Rightarrow> (case body result of None \<Rightarrow> True | Some b \<Rightarrow> node b = None))"

definition getServiceOptions_attempt ::
  "(string option \<Rightarrow> 'o option) \<Rightarrow> string \<Rightarrow> int \<Rightarrow> 'o promise \<times> 'n registry
     \<Rightarrow> left_behind \<times> 'o promise \<times> 'n registry" where
  "getServiceOptions_attempt parse name maxRetries s =
     (let (p, r) = s;
          key = path_join [SERVICES_OPTIONS_KEY, name];
          (result, r1) = etcd_get key False r
      in if read_failed result then
           (let p1 = (if maxRetries \<le> 0 then resolve None p else p);
                r2 = setTimeout ((MAX_RETRIES - maxRetries) * 500) r1
            in (Scheduled (maxRetries - 1), p1, r2))
         else
           (case body result of
              None \<Rightarrow> (Thrown, p, r1)
            | Some b \<Rightarrow>
                (case node b of
                   None \<Rightarrow> (Thrown, p, r1)
                 | Some nd \<Rightarrow>
                     (case parse (node_value nd) of
                        None \<Rightarrow> (Thrown, p, r1)
                      | Some v \<Rightarrow> (Nothing, resolve (Some v) p, r1)))))"

text \<open>
  The attempts in the order the timers run them. The fuel bounds how many attempts are
  followed; a run that ends with \<open>Scheduled m\<close> has a timer left whose attempt was not
  followed.
\<close>

fun getServiceOptions_run ::
  "nat \<Rightarrow> (string option \<Rightarrow> 'o option) \<Rightarrow> string \<Rightarrow> int \<Rightarrow> 'o promise \<times> 'n registry
     \<Rightarrow> left_behind \<times> 'o promise \<times> 'n registry" where
  "getServiceOptions_run 0 parse name maxRetries s = (Scheduled maxRetries, s)"
| "getServiceOptions_run (Suc fuel) parse name maxRetries s =
     (case getServiceOptions_attempt parse name maxRetries s of
        (Scheduled m, s') \<Rightarrow> getServiceOptions_run fuel parse name m s'
      | (Nothing, s') \<Rightarrow> (Nothing, s')
      | (Thrown, s') \<Rightarrow> (Thrown, s'))"

definition getServiceOptions_priv ::
  "nat \<Rightarrow> (string option \<Rightarrow> 'o option) \<Rightarrow> string \<Rightarrow> 'n registry \<Rightarrow> left_behind \<times> 'o promise \<times> 'n registry" where
  "getServiceOptions_priv fuel parse name r =
     getServiceOptions_run fuel parse name MAX_RETRIES (Pending, r)"

subsection \<open>Notions the statements use\<close>

text \<open>A plain path segment: not empty, without a slash, and neither \<open>.\<close> nor \<open>..\<close>.\<close>

definition plain_segment :: "string \<Rightarrow> bool" where
  "plain_segment s = (s \<noteq> [] \<and> CHR ''/'' \<notin> set s \<and> s \<noteq> ''.'' \<and> s \<noteq> ''..'')"

text \<open>The cache misses a name when it holds no list for it, or an empty one.\<close>

definition cache_miss :: "'n registry \<Rightarrow> string \<Rightarrow> bool" where
  "cache_miss r name = (case services r name of None \<Rightarrow> True | Some nodes \<Rightarrow> nodes = [])"

text \<open>A registry after some more calls: nothing but the log differs.\<close>

definition add_calls :: "call list \<Rightarrow> 'n registry \<Rightarrow> 'n registry" where
  "add_calls cs r = r\<lparr>etcd := (etcd r)\<lparr>calls := calls (etcd r) @ cs\<rparr>\<rparr>"

text \<open>The store's reply to the \<open>i\<close>-th read of a lookup that starts in \<open>r\<close>.\<close>

definition nth_reply :: "'n registry \<Rightarrow> string \<Rightarrow> nat \<Rightarrow> etcd_result" where
  "nth_reply r k i = reply (etcd r) (length (calls (etcd r)) + i) k"

definition is_Set :: "call \<Rightarrow> bool" where
  "is_Set c = (case c of Set k v opts \<Rightarrow> True | _ \<Rightarrow> False)"

text \<open>
  The registry after the read of one attempt of the lookup of a name, and the registry
  in which attempt number \<open>i\<close> (counted from 0) starts when the attempts before it have
  failed.
\<close>

definition after_read :: "(string option \<Rightarrow> 'n option) \<Rightarrow> string \<Rightarrow> 'n registry \<Rightarrow> 'n registry" where
  "after_read parse name r = snd (etcd_getSync parse (path_join [SERVICES_KEY, name]) True r)"

fun attempt_state :: "(string option \<Rightarrow> 'n option) \<Rightarrow> string \<Rightarrow> 'n registry \<Rightarrow> nat \<Rightarrow> 'n registry" where
  "attempt_state parse name r 0 = r"
| "attempt_state parse name r (Suc i) = after_read parse name (attempt_state parse name r i)"

subsection \<open>The store's leases\<close>

text \<open>
  Modelled from the spec: the store is not part of the repository. A key written with a
  TTL is removed by the store when the lease expires; a key written without one stays
  until it is overwritten. A read of a key returns its value; a read of a directory
  returns the live keys directly below it, and fails when there is none.
\<close>

record lease =
  lease_key :: string
  lease_value :: string
  lease_expiry :: "nat option"

definition store_set :: "nat \<Rightarrow> string \<Rightarrow> string \<Rightarrow> int option \<Rightarrow> lease list \<Rightarrow> lease list" where
  "store_set now k v t st =
     \<lparr>lease_key = k, lease_value = v,
      lease_expiry = (case t of None \<Rightarrow> None | Some n \<Rightarrow> Some (now + nat n))\<rparr>
     # filter (\<lambda>e. lease_key e \<noteq> k) st"

definition live :: "nat \<Rightarrow> lease \<Rightarrow> bool" where
  "live now e = (case lease_expiry e of None \<Rightarrow> True | Some t \<Rightarrow> now < t)"

definition child_of :: "string \<Rightarrow> string \<Rightarrow> bool" where
  "child_of dir k =
     (take (length dir + 1) k = dir @ ''/'' \<and> drop (length dir + 1) k \<noteq> []
      \<and> CHR ''/'' \<notin> set (drop (length dir + 1) k))"

definition store_read :: "nat \<Rightarrow> lease list \<Rightarrow> string \<Rightarrow> etcd_result" where
  "store_read now st k =
     (case find (\<lambda>e. lease_key e = k \<and> live now e) st of
        Some e \<Rightarrow> \<lparr>err = None, body = Some \<lparr>node = Some (Node k (Some (lease_value e)) None)\<rparr>\<rparr>
      | None \<Rightarrow>
          (case filter (\<lambda>e. live now e \<and> child_of k (lease_key e)) st of
             [] \<Rightarrow> \<lparr>err = Some ''Key not found'', body = None\<rparr>
           | e # es \<Rightarrow>
               \<lparr>err = None,
                body = Some \<lparr>node = Some (Node k None
                  (Some (map (\<lambda>x. Node (lease_key x) (Some (lease_value x)) None) (e # es))))\<rparr>\<rparr>))"

text \<open>The store after the writes of a log, all issued at the time \<open>now\<close>.\<close>

fun store_apply :: "nat \<Rightarrow> call list \<Rightarrow> lease list \<Rightarrow> lease list" where
  "store_apply now [] st = st"
| "store_apply now (Set k v opts # cs) st = store_apply now cs (store_set now k v (set_ttl opts) st)"
| "store_apply now (c # cs) st = store_apply now cs st"

text \<open>A reply that shows no record under a key: an error, or no child nodes.\<close>

definition no_nodes :: "etcd_result \<Rightarrow> bool" where
  "no_nodes result =
     (case err result of
        Some e \<Rightarrow> True
      | None \<Rightarrow>
          (case body result of
             None \<Rightarrow> True
           | Some tree \<Rightarrow>
               (case node tree of
                  None \<Rightarrow> True
                | Some nd \<Rightarrow> (case node_nodes nd of None \<Rightarrow> True | Some ns \<Rightarrow> ns = []))))"

text \<open>
  A reply that holds a value \<open>parse\<close> throws on: it has child nodes, and one of them does
  not deserialise.
\<close>

definition malformed :: "(string option \<Rightarrow> 'n option) \<Rightarrow> etcd_result \<Rightarrow> bool" where
  "malformed parse result =
     (case err result of
        Some e \<Rightarrow> False
      | None \<Rightarrow>
          (case body result of
             None \<Rightarrow> False
           | Some tree \<Rightarrow>
               (case node tree of
                  None \<Rightarrow> False
                | Some nd \<Rightarrow>
                    (case node_nodes nd of
                       None \<Rightarrow> False
                     | Some ns \<Rightarrow> list_ex (\<lambda>x. parse (node_value x) = None) ns))))"

text \<open>A reply that lists records: it has child nodes, and they deserialise to the records.\<close>

definition lists_records :: "(string option \<Rightarrow> 'n option) \<Rightarrow> etcd_result \<Rightarrow> 'n list \<Rightarrow> bool" where
  "lists_records parse result nodes =
     (case err result of
        Some e \<Rightarrow> False
      | None \<Rightarrow>
          (case body result of
             None \<Rightarrow> False
           | Some tree \<Rightarrow>
               (case node tree of
                  None \<Rightarrow> False
                | Some nd \<Rightarrow>
                    (case node_nodes nd of
                       None \<Rightarrow> False
                     | Some ns \<Rightarrow>
                         ns \<noteq> [] \<and> map (\<lambda>x. parse (node_value x)) ns = map Some nodes))))"

text \<open>
  Attempt number \<open>i\<close> of the lookup of a name fails: the cache misses the name when the
  attempt starts, and the reply to its read shows no node or holds a value that does not
  deserialise.
\<close>

definition attempt_failed :: "(string option \<Rightarrow> 'n option) \<Rightarrow> string \<Rightarrow> 'n registry \<Rightarrow> nat \<Rightarrow> bool" where
  "attempt_failed parse name r i =
     (cache_miss (attempt_state parse name r i) name
      \<and> (no_nodes (nth_reply r (path_join [SERVICES_KEY, name]) i)
         \<or> malformed parse (nth_reply r (path_join [SERVICES_KEY, name]) i)))"

text \<open>The child nodes of a reply, when it has any.\<close>

definition reply_nodes :: "etcd_result \<Rightarrow> etcd_node list" where
  "reply_nodes result =
     (case body result of
        None \<Rightarrow> []
      | Some tree \<Rightarrow>
          (case node tree of
             None \<Rightarrow> []
           | Some nd \<Rightarrow> (case node_nodes nd of None \<Rightarrow> [] | Some ns \<Rightarrow> ns)))"

text \<open>
  A reply to a cache reload offers a name: one of its nodes is named so and has child
  nodes of its own.
\<close>

definition offers :: "etcd_result \<Rightarrow> string \<Rightarrow> bool" where
  "offers result name =
     (case err result of
        Some e \<Rightarrow> False
      | None \<Rightarrow>
          list_ex (\<lambda>service. path_basename (node_key service) = name
                     \<and> (case node_nodes service of None \<Rightarrow> False | Some ns \<Rightarrow> ns \<noteq> []))
            (reply_nodes result))"


text \<open>
  The calls of the first \<open>n\<close> failed attempts of the options lookup: a read, then the
  timer of the retry, \<open>500 * i\<close> milliseconds after the \<open>i\<close>-th failure (counted from 0).
\<close>

definition failed_attempts :: "string \<Rightarrow> nat \<Rightarrow> call list" where
  "failed_attempts k n = concat (map (\<lambda>i. [Get k False, SetTimeout (500 * int i)]) [0..<n])"

subsection \<open>Example registries\<close>

text \<open>
  A record, a store that is down, a store that holds the record under
  \<open>services/test\<close>, and registries with and without the record in the cache. The
  example serialisation of a record is its id.
\<close>

definition example_record :: "unit service" where
  "example_record = \<lparr>service_id = ''u1'', service_name = ''test'', connection = ()\<rparr>"

definition example_parse :: "string option \<Rightarrow> unit service option" where
  "example_parse v = (if v = Some ''u1'' then Some example_record else None)"

definition store_down :: "nat \<Rightarrow> string \<Rightarrow> etcd_result" where
  "store_down n k = \<lparr>err = Some ''down'', body = None\<rparr>"

definition store_holding :: "string \<Rightarrow> nat \<Rightarrow> string \<Rightarrow> etcd_result" where
  "store_holding v n k =
     (if k = ''services/test'' then
        \<lparr>err = None,
         body = Some \<lparr>node = Some (Node k None (Some [Node ''services/test/u1'' (Some v) None]))\<rparr>\<rparr>
      else \<lparr>err = Some ''Key not found'', body = None\<rparr>)"

definition store_holding_options :: "string \<Rightarrow> nat \<Rightarrow> string \<Rightarrow> etcd_result" where
  "store_holding_options v n k =
     (if k = ''services-options/test'' then
        \<lparr>err = None, body = Some \<lparr>node = Some (Node k (Some v) None)\<rparr>\<rparr>
      else \<lparr>err = Some ''Key not found'', body = None\<rparr>)"

definition store_recovering :: "nat \<Rightarrow> string \<Rightarrow> etcd_result" where
  "store_recovering n k = (if n < 4 then store_down n k else store_holding_options ''{a:1}'' n k)"

definition example_parse_options :: "string option \<Rightarrow> string option" where
  "example_parse_options v = (if v = Some ''{a:1}'' then Some ''{a:1}'' else None)"

definition registry_cached :: "unit service registry" where
  "registry_cached =
     \<lparr>services = (\<lambda>name. if name = ''test'' then Some [example_record] else None),
      options = \<lparr>ttl = Some 5, tll = Some 5\<rparr>,
      etcd = \<lparr>reply = store_down, calls = [], arrivals = (\<lambda>n. []), loading = 0,
              background = [], uncaught = 0\<rparr>\<rparr>"

definition registry_uncached :: "(nat \<Rightarrow> string \<Rightarrow> etcd_result) \<Rightarrow> unit service registry" where
  "registry_uncached hosts =
     \<lparr>services = (\<lambda>name. None),
      options = \<lparr>ttl = Some 5, tll = Some 5\<rparr>,
      etcd = \<lparr>reply = hosts, calls = [], arrivals = (\<lambda>n. []), loading = 0,
              background = [], uncaught = 0\<rparr>\<rparr>"

text \<open>
  A world whose store answers the reload of the whole tree with the record under
  \<open>test\<close> and fails every other read, and in which that answer arrives during the
  first synchronous read of a new registry (its call number 2); a world with the store
  that holds the record and no arrivals; and a store that holds the record in a node
  whose key names another id.
\<close>

definition store_listing :: "nat \<Rightarrow> string \<Rightarrow> etcd_result" where
  "store_listing n k =
     (if k = ''services'' then
        \<lparr>err = None,
         body = Some \<lparr>node = Some (Node ''/services'' None
           (Some [Node ''/services/test'' None
                    (Some [Node ''/services/test/u1'' (Some ''u1'') None])]))\<rparr>\<rparr>
      else \<lparr>err = Some ''down'', body = None\<rparr>)"

definition world_reloading :: world where
  "world_reloading =
     \<lparr>answers = store_listing, events = (\<lambda>n. if n = 2 then [Reply] else [])\<rparr>"

definition world_holding :: world where
  "world_holding = \<lparr>answers = store_holding ''u1'', events = (\<lambda>n. [])\<rparr>"


text \<open>
  A store whose record under \<open>services/test\<close> does not deserialise at the first read
  and does from the second.
\<close>

definition store_mending :: "nat \<Rightarrow> string \<Rightarrow> etcd_result" where
  "store_mending n k = (if n < 1 then store_holding ''garbage'' n k else store_holding ''u1'' n k)"

text \<open>The writes of one registration, by a registry whose \<open>ttl\<close> is 5.\<close>

definition example_writes :: "call list" where
  "example_writes =
     calls (etcd (snd (register service_id (\<lambda>x. x) ''u1'' ''test'' () ''{a:1}''
       (registry_uncached store_down))))"

section \<open>Properties\<close>

subsection \<open>Keys of plain segments\<close>

lemma split_slash_no_slash: "CHR ''/'' \<notin> set s \<Longrightarrow> split_slash s = [s]"
  by (induction s) auto

lemma split_slash_append:
  "CHR ''/'' \<notin> set s \<Longrightarrow> split_slash (s @ CHR ''/'' # t) = s # split_slash t"
  by (induction s) auto

lemma path_join3_plain:
  assumes "plain_segment a" "plain_segment b" "plain_segment c"
  shows "path_join [a, b, c] = a @ ''/'' @ b @ ''/'' @ c"
proof -
  from assms have ne: "a \<noteq> []" "b \<noteq> []" "c \<noteq> []"
    and ns: "CHR ''/'' \<notin> set a" "CHR ''/'' \<notin> set b" "CHR ''/'' \<notin> set c"
    and nd: "a \<noteq> ''.''" "b \<noteq> ''.''" "c \<noteq> ''.''" "a \<noteq> ''..''" "b \<noteq> ''..''" "c \<noteq> ''..''"
    by (simp_all add: plain_segment_def)
  have sp: "split_slash (a @ ''/'' @ b @ ''/'' @ c) = [a, b, c]"
    using ns by (simp add: split_slash_append split_slash_no_slash)
  have hd: "hd (a @ ''/'' @ b @ ''/'' @ c) \<noteq> CHR ''/''"
    using ne ns by (cases a) auto
  have la: "last (a @ ''/'' @ b @ ''/'' @ c) \<noteq> CHR ''/''"
    using ne ns by (metis last_appendR last_in_set append_is_Nil_conv list.distinct(1) append_Cons)
  show ?thesis
    using ne nd sp hd la by (simp add: path_join_def normalize_def Let_def)
qed

lemma path_join2_plain:
  assumes "plain_segment a" "plain_segment b"
  shows "path_join [a, b] = a @ ''/'' @ b"
proof -
  from assms have ne: "a \<noteq> []" "b \<noteq> []"
    and ns: "CHR ''/'' \<notin> set a" "CHR ''/'' \<notin> set b"
    and nd: "a \<noteq> ''.''" "b \<noteq> ''.''" "a \<noteq> ''..''" "b \<noteq> ''..''"
    by (simp_all add: plain_segment_def)
  have sp: "split_slash (a @ ''/'' @ b) = [a, b]"
    using ns by (simp add: split_slash_append split_slash_no_slash)
  have hd: "hd (a @ ''/'' @ b) \<noteq> CHR ''/''"
    using ne ns by (cases a) auto
  have la: "last (a @ ''/'' @ b) \<noteq> CHR ''/''"
    using ne ns by (metis last_appendR last_in_set append_is_Nil_conv list.distinct(1) append_Cons)
  show ?thesis
    using ne nd sp hd la by (simp add: path_join_def normalize_def Let_def)
qed

lemma plain_services: "plain_segment SERVICES_KEY" "plain_segment SERVICES_OPTIONS_KEY"
  by (simp_all add: plain_segment_def SERVICES_KEY_def SERVICES_OPTIONS_KEY_def)

text \<open>For any name, the key is the normal form of the path written out with slashes.\<close>

lemma split_services: "split_slash (''services/'' @ t) = ''services'' # split_slash t"
  using split_slash_append[of "''services''" t] by simp

lemma normalize_services_empty_name:
  assumes "uuid \<noteq> []"
  shows "normalize (''services/'' @ uuid) = normalize (''services/'' @ [] @ ''/'' @ uuid)"
proof -
  have a: "split_slash (''services/'' @ [] @ ''/'' @ uuid) = ''services'' # [] # split_slash uuid"
    using split_services[of "CHR ''/'' # uuid"] by simp
  have b: "split_slash (''services/'' @ uuid) = ''services'' # split_slash uuid"
    by (rule split_services)
  have l: "last (''services/'' @ uuid) = last (''services/'' @ [] @ ''/'' @ uuid)"
    using assms by simp
  have h: "hd (''services/'' @ uuid) = hd (''services/'' @ [] @ ''/'' @ uuid)"
    by simp
  have n: "normalize_segments True [] (''services'' # [] # split_slash uuid)
         = normalize_segments True [] (''services'' # split_slash uuid)"
    by simp
  show ?thesis
    unfolding normalize_def a b l h n by simp
qed

lemma record_key_normal_form:
  assumes "uuid \<noteq> []"
  shows "path_join [''services'', name, uuid] = normalize (''services/'' @ name @ ''/'' @ uuid)"
proof (cases "name = []")
  case True
  then show ?thesis
    using assms normalize_services_empty_name[OF assms] by (simp add: path_join_def)
next
  case False
  then show ?thesis
    using assms by (simp add: path_join_def)
qed

lemma options_key_normal_form:
  assumes "name \<noteq> []"
  shows "path_join [''services-options'', name] = normalize (''services-options/'' @ name)"
  using assms by (simp add: path_join_def)

subsection \<open>The lookup, step by step\<close>

declare getService_priv.simps [simp del]

lemma add_calls_simps [simp]:
  "services (add_calls cs r) = services r"
  "options (add_calls cs r) = options r"
  "reply (etcd (add_calls cs r)) = reply (etcd r)"
  "calls (etcd (add_calls cs r)) = calls (etcd r) @ cs"
  "arrivals (etcd (add_calls cs r)) = arrivals (etcd r)"
  by (simp_all add: add_calls_def)

lemma add_calls_Nil [simp]: "add_calls [] r = r"
  by (simp add: add_calls_def)

lemma add_calls_add_calls [simp]: "add_calls cs (add_calls bs r) = add_calls (bs @ cs) r"
  by (simp add: add_calls_def)

lemma cache_miss_add_calls [simp]: "cache_miss (add_calls cs r) name = cache_miss r name"
  by (simp add: cache_miss_def)

lemma nth_reply_add_calls [simp]:
  "nth_reply (add_calls cs r) k i = nth_reply r k (length cs + i)"
  by (simp add: nth_reply_def add.assoc)

text \<open>What the handlers leave untouched.\<close>

lemma throw_uncaught_frame [simp]:
  "options (throw_uncaught r) = options r"
  "reply (etcd (throw_uncaught r)) = reply (etcd r)"
  "calls (etcd (throw_uncaught r)) = calls (etcd r)"
  "arrivals (etcd (throw_uncaught r)) = arrivals (etcd r)"
  "services (throw_uncaught r) = services r"
  by (simp_all add: throw_uncaught_def)

lemma load_services_frame [simp]:
  "options (load_services parse ns r) = options r"
  "reply (etcd (load_services parse ns r)) = reply (etcd r)"
  "calls (etcd (load_services parse ns r)) = calls (etcd r)"
  "arrivals (etcd (load_services parse ns r)) = arrivals (etcd r)"
  by (induction ns arbitrary: r; simp add: Let_def split: option.splits)+

lemma loadServices_callback_frame [simp]:
  "options (loadServices_callback parse res r) = options r"
  "reply (etcd (loadServices_callback parse res r)) = reply (etcd r)"
  "calls (etcd (loadServices_callback parse res r)) = calls (etcd r)"
  "arrivals (etcd (loadServices_callback parse res r)) = arrivals (etcd r)"
  by (simp_all add: loadServices_callback_def split: option.splits)

lemma loadServices_handler_frame [simp]:
  "options (loadServices_priv True r) = options r"
  "reply (etcd (loadServices_priv True r)) = reply (etcd r)"
  "calls (etcd (loadServices_priv True r)) = calls (etcd r)"
  "arrivals (etcd (loadServices_priv True r)) = arrivals (etcd r)"
  by (simp_all add: loadServices_priv_def Let_def)

lemma deliver_frame [simp]:
  "options (deliver parse a r) = options r"
  "reply (etcd (deliver parse a r)) = reply (etcd r)"
  "calls (etcd (deliver parse a r)) = calls (etcd r)"
  "arrivals (etcd (deliver parse a r)) = arrivals (etcd r)"
  by (simp_all add: deliver_def split: arrival.splits nat.splits)

lemma fold_deliver_frame [simp]:
  "options (fold (deliver parse) as r) = options r"
  "reply (etcd (fold (deliver parse) as r)) = reply (etcd r)"
  "calls (etcd (fold (deliver parse) as r)) = calls (etcd r)"
  "arrivals (etcd (fold (deliver parse) as r)) = arrivals (etcd r)"
  by (induction as arbitrary: r; simp)+

lemma after_read_eq:
  "after_read parse name r =
     fold (deliver parse) (arrivals (etcd r) (length (calls (etcd r))))
       (add_calls [GetSync (path_join [SERVICES_KEY, name]) True] r)"
  by (simp add: after_read_def etcd_getSync_def add_calls_def Let_def)

lemma after_read_frame [simp]:
  "options (after_read parse name r) = options r"
  "reply (etcd (after_read parse name r)) = reply (etcd r)"
  "calls (etcd (after_read parse name r))
     = calls (etcd r) @ [GetSync (path_join [SERVICES_KEY, name]) True]"
  "arrivals (etcd (after_read parse name r)) = arrivals (etcd r)"
  by (simp_all add: after_read_eq)

lemma after_read_quiet:
  "arrivals (etcd r) (length (calls (etcd r))) = [] \<Longrightarrow>
     after_read parse name r = add_calls [GetSync (path_join [SERVICES_KEY, name]) True] r"
  by (simp add: after_read_eq)

lemma nth_reply_after_read [simp]:
  "nth_reply (after_read parse name r) k i = nth_reply r k (Suc i)"
  by (simp add: nth_reply_def)

lemma attempt_state_frame [simp]:
  "options (attempt_state parse name r i) = options r"
  "reply (etcd (attempt_state parse name r i)) = reply (etcd r)"
  "calls (etcd (attempt_state parse name r i))
     = calls (etcd r) @ replicate i (GetSync (path_join [SERVICES_KEY, name]) True)"
  "arrivals (etcd (attempt_state parse name r i)) = arrivals (etcd r)"
  by (induction i; simp add: replicate_append_same)+

lemma attempt_state_shift:
  "attempt_state parse name (after_read parse name r) i = attempt_state parse name r (Suc i)"
  by (induction i) simp_all

lemma attempt_state_quiet:
  "\<forall>i < k. arrivals (etcd r) (length (calls (etcd r)) + i) = [] \<Longrightarrow>
     attempt_state parse name r k
       = add_calls (replicate k (GetSync (path_join [SERVICES_KEY, name]) True)) r"
proof (induction k)
  case 0
  then show ?case by simp
next
  case (Suc k)
  then have "attempt_state parse name r k
       = add_calls (replicate k (GetSync (path_join [SERVICES_KEY, name]) True)) r"
    by simp
  moreover have "arrivals (etcd r) (length (calls (etcd r)) + k) = []"
    using Suc.prems by simp
  ultimately show ?case
    by (simp add: after_read_quiet replicate_append_same)
qed

lemma getService_fetch_eq:
  "getService_fetch parse name r =
     (getService_read parse (nth_reply r (path_join [SERVICES_KEY, name]) 0),
      after_read parse name r)"
  by (simp add: getService_fetch_def after_read_def etcd_getSync_def nth_reply_def Let_def)

lemma getService_try_hit:
  "services r name = Some nodes \<Longrightarrow> nodes \<noteq> [] \<Longrightarrow> getService_try parse name r = (Inr nodes, r)"
  by (simp add: getService_try_def)

lemma getService_try_miss:
  "cache_miss r name \<Longrightarrow> getService_try parse name r = getService_fetch parse name r"
  by (auto simp: getService_try_def cache_miss_def split: option.splits)

lemma getService_priv_hit:
  "services r name = Some nodes \<Longrightarrow> nodes \<noteq> [] \<Longrightarrow>
     getService_priv parse maxRetries name r = (Some nodes, r)"
  by (subst getService_priv.simps) (simp add: getService_try_hit)

lemma getService_priv_miss_step:
  assumes "cache_miss r name"
  shows "getService_priv parse maxRetries name r =
     (case getService_read parse (nth_reply r (path_join [SERVICES_KEY, name]) 0) of
        Inr nodes \<Rightarrow> (Some nodes, after_read parse name r)
      | Inl e \<Rightarrow>
          if maxRetries \<le> 0 then (None, after_read parse name r)
          else getService_priv parse (maxRetries - 1) name (after_read parse name r))"
  using assms
  by (subst getService_priv.simps)
     (simp add: getService_try_miss getService_fetch_eq split: sum.splits)


text \<open>The outcome of a read, by the shape of the reply.\<close>

lemma those_eq_Some: "those xs = Some ys \<longleftrightarrow> xs = map Some ys"
  by (induction xs arbitrary: ys) (auto split: option.splits)

lemma those_map_Some [simp]: "those (map Some ys) = Some ys"
  by (induction ys) auto

lemma those_map_None: "those (map f xs) = None \<longleftrightarrow> (\<exists>x \<in> set xs. f x = None)"
  by (induction xs) (auto split: option.splits)

lemma getService_read_Inr:
  "getService_read parse result = Inr nodes \<longleftrightarrow> lists_records parse result nodes"
  by (auto simp: getService_read_def lists_records_def those_eq_Some split: option.splits)

lemma getService_read_Inl:
  "isl (getService_read parse result) \<longleftrightarrow> no_nodes result \<or> malformed parse result"
proof (cases "those (map (\<lambda>node. parse (node_value node)) (reply_nodes result))")
  case None
  then show ?thesis
    using those_map_None[of "\<lambda>node. parse (node_value node)" "reply_nodes result"]
    by (auto simp: getService_read_def no_nodes_def malformed_def reply_nodes_def list_ex_iff
        split: option.splits)
next
  case (Some nodes)
  then show ?thesis
    using those_map_None[of "\<lambda>node. parse (node_value node)" "reply_nodes result"]
    by (auto simp: getService_read_def no_nodes_def malformed_def reply_nodes_def list_ex_iff
        split: option.splits)
qed

lemma malformed_read:
  "malformed parse result \<Longrightarrow> getService_read parse result = Inl ParseFailure"
  using those_map_None[of "\<lambda>node. parse (node_value node)" "reply_nodes result"]
  by (auto simp: getService_read_def malformed_def reply_nodes_def list_ex_iff
      split: option.splits)

lemma lists_records_nonempty: "lists_records parse result nodes \<Longrightarrow> nodes \<noteq> []"
  by (auto simp: lists_records_def split: option.splits)

lemma lists_records_keeps_all:
  "lists_records parse result nodes \<Longrightarrow>
     map (\<lambda>x. parse (node_value x)) (reply_nodes result) = map Some nodes"
  by (auto simp: lists_records_def reply_nodes_def split: option.splits)

text \<open>The attempts of a lookup, one after the other.\<close>

lemma attempt_failed_0:
  "attempt_failed parse name r 0 \<longleftrightarrow>
     cache_miss r name \<and> isl (getService_read parse (nth_reply r (path_join [SERVICES_KEY, name]) 0))"
  by (simp add: attempt_failed_def getService_read_Inl)

lemma attempt_failed_shift:
  "attempt_failed parse name (after_read parse name r) i = attempt_failed parse name r (Suc i)"
  by (simp add: attempt_failed_def attempt_state_shift del: attempt_state.simps)

lemma getService_priv_skip:
  assumes "attempt_failed parse name r 0" and "0 < maxRetries"
  shows "getService_priv parse maxRetries name r
       = getService_priv parse (maxRetries - 1) name (after_read parse name r)"
  using assms
  by (subst getService_priv_miss_step) (auto simp: attempt_failed_0 split: sum.splits)

lemma getService_priv_prefix:
  assumes "j \<le> nat maxRetries" and "\<forall>i < j. attempt_failed parse name r i"
  shows "getService_priv parse maxRetries name r
       = getService_priv parse (maxRetries - int j) name (attempt_state parse name r j)"
  using assms
proof (induction j arbitrary: maxRetries r)
  case 0
  then show ?case by simp
next
  case (Suc j)
  have m: "0 < maxRetries" "j \<le> nat (maxRetries - 1)" using Suc.prems(1) by auto
  have f0: "attempt_failed parse name r 0" using Suc.prems(2) by simp
  have fs: "\<forall>i < j. attempt_failed parse name (after_read parse name r) i"
    using Suc.prems(2) by (simp add: attempt_failed_shift)
  have "getService_priv parse maxRetries name r
       = getService_priv parse (maxRetries - 1) name (after_read parse name r)"
    using f0 m(1) by (rule getService_priv_skip)
  also have "\<dots> = getService_priv parse (maxRetries - 1 - int j) name
                     (attempt_state parse name (after_read parse name r) j)"
    using m(2) fs by (rule Suc.IH)
  also have "\<dots> = getService_priv parse (maxRetries - int (Suc j)) name
                     (attempt_state parse name r (Suc j))"
    by (simp only: attempt_state_shift) (simp add: algebra_simps)
  finally show ?case .
qed

lemma getService_priv_from_cache:
  assumes "j \<le> nat maxRetries" and "\<forall>i < j. attempt_failed parse name r i"
    and "services (attempt_state parse name r j) name = Some nodes" and "nodes \<noteq> []"
  shows "getService_priv parse maxRetries name r = (Some nodes, attempt_state parse name r j)"
  using getService_priv_prefix[OF assms(1,2)] getService_priv_hit[OF assms(3,4)] by simp

lemma nth_reply_attempt_state [simp]:
  "nth_reply (attempt_state parse name r j) (path_join [SERVICES_KEY, name]) i
     = nth_reply r (path_join [SERVICES_KEY, name]) (j + i)"
  by (simp add: nth_reply_def add.assoc)

lemma getService_priv_from_read:
  assumes "j \<le> nat maxRetries" and "\<forall>i < j. attempt_failed parse name r i"
    and "cache_miss (attempt_state parse name r j) name"
    and "lists_records parse (nth_reply r (path_join [SERVICES_KEY, name]) j) nodes"
  shows "getService_priv parse maxRetries name r = (Some nodes, attempt_state parse name r (Suc j))"
proof -
  have "getService_read parse
          (nth_reply (attempt_state parse name r j) (path_join [SERVICES_KEY, name]) 0) = Inr nodes"
    using assms(4) by (simp add: getService_read_Inr)
  then have "getService_priv parse (maxRetries - int j) name (attempt_state parse name r j)
       = (Some nodes, attempt_state parse name r (Suc j))"
    using assms(3) by (subst getService_priv_miss_step) simp_all
  with getService_priv_prefix[OF assms(1,2)] show ?thesis by simp
qed

lemma getService_priv_exhausted:
  assumes "\<forall>i \<le> nat maxRetries. attempt_failed parse name r i"
  shows "getService_priv parse maxRetries name r
       = (None, attempt_state parse name r (Suc (nat maxRetries)))"
proof -
  let ?j = "nat maxRetries"
  let ?s = "attempt_state parse name r ?j"
  have p: "getService_priv parse maxRetries name r
       = getService_priv parse (maxRetries - int ?j) name ?s"
    using assms by (intro getService_priv_prefix) auto
  have f: "attempt_failed parse name r ?j" using assms by simp
  then have c: "cache_miss ?s name"
    and e: "isl (getService_read parse (nth_reply ?s (path_join [SERVICES_KEY, name]) 0))"
    by (simp_all add: attempt_failed_def getService_read_Inl)
  have "maxRetries - int ?j \<le> 0" by simp
  with c e have "getService_priv parse (maxRetries - int ?j) name ?s
       = (None, after_read parse name ?s)"
    by (subst getService_priv_miss_step) (auto split: sum.splits)
  with p show ?thesis by simp
qed

text \<open>Every lookup ends in one of these ways.\<close>

lemma getService_priv_outcome:
  "\<exists>k \<le> Suc (nat maxRetries).
      snd (getService_priv parse maxRetries name r) = attempt_state parse name r k
    \<and> fst (getService_priv parse maxRetries name r) \<noteq> Some []
    \<and> (cache_miss r name \<longrightarrow> 1 \<le> k)
    \<and> (fst (getService_priv parse maxRetries name r) = None \<longrightarrow>
          k = Suc (nat maxRetries) \<and> (\<forall>i \<le> nat maxRetries. attempt_failed parse name r i))"
proof (induction "nat maxRetries" arbitrary: maxRetries r)
  case 0
  show ?case
  proof (cases "cache_miss r name")
    case False
    then obtain nodes where h: "services r name = Some nodes" "nodes \<noteq> []"
      by (auto simp: cache_miss_def split: option.splits)
    show ?thesis
      by (rule exI[of _ 0]) (simp add: getService_priv_hit[OF h] h False)
  next
    case True
    show ?thesis
    proof (cases "getService_read parse (nth_reply r (path_join [SERVICES_KEY, name]) 0)")
      case (Inr nodes)
      then have "nodes \<noteq> []" by (simp add: getService_read_Inr lists_records_nonempty)
      then show ?thesis
        using True Inr
        by (intro exI[of _ 1]) (simp add: getService_priv_miss_step)
    next
      case (Inl e)
      then have "attempt_failed parse name r 0" using True by (simp add: attempt_failed_0)
      then show ?thesis
        using True Inl 0
        by (intro exI[of _ 1]) (simp add: getService_priv_miss_step)
    qed
  qed
next
  case (Suc n)
  have m: "0 < maxRetries" "n = nat (maxRetries - 1)" using Suc.hyps(2) by auto
  show ?case
  proof (cases "cache_miss r name")
    case False
    then obtain nodes where h: "services r name = Some nodes" "nodes \<noteq> []"
      by (auto simp: cache_miss_def split: option.splits)
    show ?thesis
      by (rule exI[of _ 0]) (simp add: getService_priv_hit[OF h] h False)
  next
    case True
    show ?thesis
    proof (cases "getService_read parse (nth_reply r (path_join [SERVICES_KEY, name]) 0)")
      case (Inr nodes)
      then have "nodes \<noteq> []" by (simp add: getService_read_Inr lists_records_nonempty)
      then show ?thesis
        using True Inr
        by (intro exI[of _ 1]) (simp add: getService_priv_miss_step)
    next
      case (Inl e)
      then have f0: "attempt_failed parse name r 0" using True by (simp add: attempt_failed_0)
      let ?r = "after_read parse name r"
      have step: "getService_priv parse maxRetries name r
                = getService_priv parse (maxRetries - 1) name ?r"
        using f0 m(1) by (rule getService_priv_skip)
      from Suc.hyps(1)[OF m(2), of ?r] obtain k where k0:
        "k \<le> Suc (nat (maxRetries - 1)) \<and>
         snd (getService_priv parse (maxRetries - 1) name ?r) = attempt_state parse name ?r k \<and>
         fst (getService_priv parse (maxRetries - 1) name ?r) \<noteq> Some [] \<and>
         (cache_miss ?r name \<longrightarrow> 1 \<le> k) \<and>
         (fst (getService_priv parse (maxRetries - 1) name ?r) = None \<longrightarrow>
           k = Suc (nat (maxRetries - 1)) \<and> (\<forall>i \<le> nat (maxRetries - 1). attempt_failed parse name ?r i))"
        ..
      note k = k0[THEN conjunct1] k0[THEN conjunct2, THEN conjunct1]
        k0[THEN conjunct2, THEN conjunct2, THEN conjunct1]
        k0[THEN conjunct2, THEN conjunct2, THEN conjunct2, THEN conjunct2]
      have all: "\<forall>i \<le> nat maxRetries. attempt_failed parse name r i"
        if "\<forall>i \<le> nat (maxRetries - 1). attempt_failed parse name ?r i"
      proof (intro allI impI)
        fix i assume i: "i \<le> nat maxRetries"
        show "attempt_failed parse name r i"
        proof (cases i)
          case 0 then show ?thesis using f0 by simp
        next
          case (Suc i')
          then have "i' \<le> nat (maxRetries - 1)" using i by auto
          with that have "attempt_failed parse name ?r i'" by simp
          then show ?thesis using Suc by (simp add: attempt_failed_shift)
        qed
      qed
      show ?thesis
      proof (intro exI[of _ "Suc k"] conjI impI)
        show "Suc k \<le> Suc (nat maxRetries)" using k(1) m by auto
        show "snd (getService_priv parse maxRetries name r) = attempt_state parse name r (Suc k)"
          using k(2) step by (simp only: attempt_state_shift)
        show "fst (getService_priv parse maxRetries name r) \<noteq> Some []" using k(3) step by simp
        show "1 \<le> Suc k" by simp
        show "Suc k = Suc (nat maxRetries)" if "fst (getService_priv parse maxRetries name r) = None"
          using that k(4) step m by auto
        show "\<forall>i \<le> nat maxRetries. attempt_failed parse name r i"
          if "fst (getService_priv parse maxRetries name r) = None"
          using that k(4) step all by simp
      qed
    qed
  qed
qed

text \<open>Reloads that do not offer a name leave it missing.\<close>

lemma cache_miss_etcd_update [simp]: "cache_miss (r\<lparr>etcd := e\<rparr>) name = cache_miss r name"
  by (simp add: cache_miss_def)

lemma cache_miss_throw_uncaught [simp]: "cache_miss (throw_uncaught r) name = cache_miss r name"
  by (simp add: throw_uncaught_def)

lemma cache_miss_loadServices_priv [simp]: "cache_miss (loadServices_priv h r) name"
  by (simp add: loadServices_priv_def cache_miss_def etcd_get_def Let_def)

lemma load_services_keeps_miss:
  assumes "cache_miss r name"
    and "\<not> list_ex (\<lambda>service. path_basename (node_key service) = name
            \<and> (case node_nodes service of None \<Rightarrow> False | Some ns \<Rightarrow> ns \<noteq> [])) xs"
  shows "cache_miss (load_services parse xs r) name"
  using assms
proof (induction xs arbitrary: r)
  case Nil
  then show ?case by simp
next
  case (Cons service rest)
  show ?case
  proof (cases "node_nodes service")
    case None
    then show ?thesis using Cons by simp
  next
    case (Some ns)
    show ?thesis
    proof (cases "those (map (\<lambda>node. parse (node_value node)) ns)")
      case None
      then show ?thesis using Some Cons.prems by simp
    next
      case inner: (Some nodes)
      let ?r = "r\<lparr>services := (services r)(path_basename (node_key service) := Some nodes)\<rparr>"
      have "cache_miss ?r name"
      proof (cases "path_basename (node_key service) = name")
        case True
        then have "ns = []" using Cons.prems(2) Some by simp
        then have "nodes = []" using inner by simp
        then show ?thesis using True by (simp add: cache_miss_def)
      next
        case False
        then show ?thesis using Cons.prems(1) by (simp add: cache_miss_def)
      qed
      moreover have "\<not> list_ex (\<lambda>service. path_basename (node_key service) = name
            \<and> (case node_nodes service of None \<Rightarrow> False | Some ns \<Rightarrow> ns \<noteq> [])) rest"
        using Cons.prems(2) by simp
      ultimately have "cache_miss (load_services parse rest ?r) name" by (rule Cons.IH)
      then show ?thesis using Some inner by simp
    qed
  qed
qed

lemma loadServices_callback_keeps_miss:
  assumes "cache_miss r name" and "\<not> offers result name"
  shows "cache_miss (loadServices_callback parse result r) name"
proof (cases "err result")
  case (Some e)
  then show ?thesis using assms by (simp add: loadServices_callback_def)
next
  case None
  then have "\<not> list_ex (\<lambda>service. path_basename (node_key service) = name
            \<and> (case node_nodes service of None \<Rightarrow> False | Some ns \<Rightarrow> ns \<noteq> [])) (reply_nodes result)"
    using assms(2) by (simp add: offers_def)
  then show ?thesis
    using assms(1) None
    by (auto simp: loadServices_callback_def reply_nodes_def intro: load_services_keeps_miss
        split: option.splits)
qed

lemma deliver_keeps_miss:
  assumes "cache_miss r name" and "\<forall>n. \<not> offers (reply (etcd r) n SERVICES_KEY) name"
  shows "cache_miss (deliver parse a r) name"
proof (cases a)
  case Change
  then show ?thesis by (simp add: deliver_def)
next
  case Reply
  show ?thesis
  proof (cases "loading (etcd r)")
    case 0
    then show ?thesis using Reply assms by (simp add: deliver_def)
  next
    case (Suc n)
    have "cache_miss (loadServices_callback parse
            (reply (etcd r) (length (calls (etcd r))) SERVICES_KEY)
            (r\<lparr>etcd := (etcd r)\<lparr>loading := n\<rparr>\<rparr>)) name"
      using assms by (intro loadServices_callback_keeps_miss) simp_all
    then show ?thesis using Reply Suc by (simp add: deliver_def)
  qed
qed

lemma fold_deliver_keeps_miss:
  assumes "cache_miss r name" and "\<forall>n. \<not> offers (reply (etcd r) n SERVICES_KEY) name"
  shows "cache_miss (fold (deliver parse) as r) name"
  using assms
proof (induction as arbitrary: r)
  case Nil
  then show ?case by simp
next
  case (Cons a as)
  have "cache_miss (deliver parse a r) name" using Cons.prems by (rule deliver_keeps_miss)
  moreover have "\<forall>n. \<not> offers (reply (etcd (deliver parse a r)) n SERVICES_KEY) name"
    using Cons.prems(2) by simp
  ultimately show ?case using Cons.IH by simp
qed

lemma after_read_keeps_miss:
  assumes "cache_miss r name'" and "\<forall>n. \<not> offers (reply (etcd r) n SERVICES_KEY) name'"
  shows "cache_miss (after_read parse name r) name'"
  unfolding after_read_eq using assms by (intro fold_deliver_keeps_miss) simp_all

lemma attempt_state_keeps_miss:
  assumes "cache_miss r name'" and "\<forall>n. \<not> offers (reply (etcd r) n SERVICES_KEY) name'"
  shows "cache_miss (attempt_state parse name r i) name'"
proof (induction i)
  case 0
  then show ?case using assms by simp
next
  case (Suc i)
  then show ?case using assms(2) by (simp add: after_read_keeps_miss)
qed

lemma attempts_fail_unoffered:
  assumes "cache_miss r name" and "\<forall>n. \<not> offers (reply (etcd r) n SERVICES_KEY) name"
    and "no_nodes (nth_reply r (path_join [SERVICES_KEY, name]) i)
       \<or> malformed parse (nth_reply r (path_join [SERVICES_KEY, name]) i)"
  shows "attempt_failed parse name r i"
  using assms by (simp add: attempt_failed_def attempt_state_keeps_miss)

text \<open>A registry to which nothing arrives.\<close>

lemma attempts_fail_quiet:
  assumes "\<forall>j < Suc i. arrivals (etcd r) (length (calls (etcd r)) + j) = []"
    and "cache_miss r name"
    and "no_nodes (nth_reply r (path_join [SERVICES_KEY, name]) i)
       \<or> malformed parse (nth_reply r (path_join [SERVICES_KEY, name]) i)"
  shows "attempt_failed parse name r i"
proof -
  have "attempt_state parse name r i
      = add_calls (replicate i (GetSync (path_join [SERVICES_KEY, name]) True)) r"
    using assms(1) by (intro attempt_state_quiet) simp
  then show ?thesis using assms(2,3) by (simp add: attempt_failed_def)
qed

subsection \<open>What \<open>register\<close> writes\<close>


lemma register_calls:
  "snd (register stringify stringify_options uuid name conn opts r) =
     add_calls
       [Set (path_join [SERVICES_KEY, name, uuid])
            (stringify \<lparr>service_id = uuid, service_name = name, connection = conn\<rparr>)
            \<lparr>set_maxRetries = 3, set_ttl = ttl (options r)\<rparr>,
        Set (path_join [SERVICES_OPTIONS_KEY, name]) (stringify_options opts)
            \<lparr>set_maxRetries = 3, set_ttl = None\<rparr>] r"
  by (simp add: register_def saveService_priv_def saveServiceOptions_priv_def etcd_set_def
      add_calls_def Let_def)

lemma register_with_options_calls:
  "snd (register_with_options stringify uuid name conn opts r) =
     add_calls
       [Set (path_join [SERVICES_KEY, name, uuid])
            (stringify \<lparr>service_id = uuid, service_name = name, connection = conn,
                         service_options = opts\<rparr>)
            \<lparr>set_maxRetries = 3, set_ttl = ttl (options r)\<rparr>] r"
  by (simp add: register_with_options_def saveService_priv_def etcd_set_def add_calls_def Let_def)

subsection \<open>What a lookup leaves behind\<close>

lemma six_attempts: "Suc (nat 5) = 6"
  by simp

lemma getService_outcome:
  "\<exists>k \<le> 6.
      snd (getService parse name r) = attempt_state parse name r k
    \<and> fst (getService parse name r) \<noteq> Some []
    \<and> (cache_miss r name \<longrightarrow> 1 \<le> k)
    \<and> (fst (getService parse name r) = None \<longrightarrow>
          k = 6 \<and> (\<forall>i < 6. attempt_failed parse name r i))"
proof -
  have five: "i \<le> nat 5 \<longleftrightarrow> i < 6" for i :: nat by auto
  show ?thesis
    using getService_priv_outcome[of 5 parse name r]
    unfolding getService_def six_attempts five .
qed

lemma getService_frame:
  "options (snd (getService parse name r)) = options r"
  "reply (etcd (snd (getService parse name r))) = reply (etcd r)"
  "filter is_Set (calls (etcd (snd (getService parse name r)))) = filter is_Set (calls (etcd r))"
  using getService_outcome[of parse name r] by (auto simp: is_Set_def)

lemma getService_reads:
  "\<exists>k \<le> 6. calls (etcd (snd (getService parse name r)))
      = calls (etcd r) @ replicate k (GetSync (path_join [SERVICES_KEY, name]) True)"
  using getService_outcome[of parse name r] by auto

lemma getService_from_cache:
  assumes "j < 6" and "\<forall>i < j. attempt_failed parse name r i"
    and "services (attempt_state parse name r j) name = Some nodes" and "nodes \<noteq> []"
  shows "getService parse name r = (Some nodes, attempt_state parse name r j)"
  unfolding getService_def using assms by (intro getService_priv_from_cache) auto

lemma getService_from_read:
  assumes "j < 6" and "\<forall>i < j. attempt_failed parse name r i"
    and "cache_miss (attempt_state parse name r j) name"
    and "lists_records parse (nth_reply r (path_join [SERVICES_KEY, name]) j) nodes"
  shows "getService parse name r = (Some nodes, attempt_state parse name r (Suc j))"
  unfolding getService_def using assms by (intro getService_priv_from_read) auto

lemma getService_exhausted:
  assumes "\<forall>i < 6. attempt_failed parse name r i"
  shows "getService parse name r = (None, attempt_state parse name r 6)"
proof -
  have "\<forall>i \<le> nat 5. attempt_failed parse name r i" using assms by auto
  from getService_priv_exhausted[OF this] show ?thesis
    unfolding getService_def six_attempts .
qed

lemma getService_quiet_exhausted:
  assumes "\<forall>j < 6. arrivals (etcd r) (length (calls (etcd r)) + j) = []"
    and "cache_miss r name"
    and "\<forall>i < 6. no_nodes (nth_reply r (path_join [SERVICES_KEY, name]) i)
               \<or> malformed parse (nth_reply r (path_join [SERVICES_KEY, name]) i)"
  shows "getService parse name r
      = (None, add_calls (replicate 6 (GetSync (path_join [SERVICES_KEY, name]) True)) r)"
proof -
  have "\<forall>i < 6. attempt_failed parse name r i"
    using assms by (auto intro!: attempts_fail_quiet)
  then have "getService parse name r = (None, attempt_state parse name r 6)"
    by (rule getService_exhausted)
  then show ?thesis using assms(1) by (simp add: attempt_state_quiet)
qed


lemma example_registry_simps:
  "services registry_cached ''test'' = Some [example_record]"
  "calls (etcd registry_cached) = []"
  "cache_miss (registry_uncached hosts) name"
  "calls (etcd (registry_uncached hosts)) = []"
  "reply (etcd (registry_uncached hosts)) = hosts"
  "arrivals (etcd (registry_uncached hosts)) = (\<lambda>n. [])"
  "options (registry_uncached hosts) = \<lparr>ttl = Some 5, tll = Some 5\<rparr>"
  "options registry_cached = \<lparr>ttl = Some 5, tll = Some 5\<rparr>"
  "nth_reply (registry_uncached hosts) k i = hosts i k"
  by (simp_all add: registry_cached_def registry_uncached_def cache_miss_def nth_reply_def)

lemma services_test_key: "path_join [SERVICES_KEY, ''test''] = ''services/test''"
  by (simp add: path_join2_plain plain_services plain_segment_def SERVICES_KEY_def)


lemma store_holding_garbage:
  "malformed example_parse (store_holding ''garbage'' n ''services/test'')"
  by (simp add: malformed_def store_holding_def example_parse_def)

lemma store_down_no_nodes: "no_nodes (store_down n k)"
  by (simp add: no_nodes_def store_down_def)

subsection \<open>The options lookup, attempt by attempt\<close>

lemma failed_attempts_Suc:
  "failed_attempts k (Suc n) = failed_attempts k n @ [Get k False, SetTimeout (500 * int n)]"
  by (simp add: failed_attempts_def)

lemma length_failed_attempts [simp]: "length (failed_attempts k n) = 2 * n"
  by (induction n) (simp_all add: failed_attempts_Suc, simp add: failed_attempts_def)

lemma getServiceOptions_attempt_failed:
  assumes "read_failed (nth_reply r (path_join [SERVICES_OPTIONS_KEY, name]) 0)"
  shows "getServiceOptions_attempt parse name maxRetries (p, r) =
     (Scheduled (maxRetries - 1),
      (if maxRetries \<le> 0 then resolve None p else p),
      add_calls [Get (path_join [SERVICES_OPTIONS_KEY, name]) False,
                 SetTimeout ((MAX_RETRIES - maxRetries) * 500)] r)"
  using assms
  by (simp add: getServiceOptions_attempt_def etcd_get_def setTimeout_def nth_reply_def
      add_calls_def Let_def)

lemma getServiceOptions_attempt_found:
  assumes "nth_reply r (path_join [SERVICES_OPTIONS_KEY, name]) 0
             = \<lparr>err = None, body = Some \<lparr>node = Some nd\<rparr>\<rparr>"
    and "parse (node_value nd) = Some v"
  shows "getServiceOptions_attempt parse name maxRetries (p, r) =
     (Nothing, resolve (Some v) p, add_calls [Get (path_join [SERVICES_OPTIONS_KEY, name]) False] r)"
  using assms
  by (simp add: getServiceOptions_attempt_def etcd_get_def nth_reply_def read_failed_def
      add_calls_def Let_def)

lemma getServiceOptions_run_failed:
  assumes "\<forall>i < n. read_failed (nth_reply r (path_join [SERVICES_OPTIONS_KEY, name]) (2 * i))"
  shows "getServiceOptions_run n parse name maxRetries (p, r) =
     (Scheduled (maxRetries - int n),
      (if 0 < n \<and> maxRetries - int n < 0 then resolve None p else p),
      add_calls (concat (map (\<lambda>i. [Get (path_join [SERVICES_OPTIONS_KEY, name]) False,
                                    SetTimeout ((MAX_RETRIES - (maxRetries - int i)) * 500)]) [0..<n])) r)"
  using assms
proof (induction n arbitrary: maxRetries p r)
  case 0
  then show ?case by simp
next
  case (Suc n)
  let ?key = "path_join [SERVICES_OPTIONS_KEY, name]"
  let ?r1 = "add_calls [Get ?key False, SetTimeout ((MAX_RETRIES - maxRetries) * 500)] r"
  let ?p1 = "if maxRetries \<le> 0 then resolve None p else p"
  have f0: "read_failed (nth_reply r ?key 0)" using Suc.prems by auto
  have fs: "\<forall>i < n. read_failed (nth_reply ?r1 ?key (2 * i))"
    using Suc.prems by auto
  have m: "map (\<lambda>i. [Get ?key False, SetTimeout ((MAX_RETRIES - (maxRetries - int i)) * 500)]) [0..<Suc n]
      = [Get ?key False, SetTimeout ((MAX_RETRIES - maxRetries) * 500)]
        # map (\<lambda>i. [Get ?key False, SetTimeout ((MAX_RETRIES - (maxRetries - 1 - int i)) * 500)]) [0..<n]"
    by (simp add: upt_conv_Cons map_Suc_upt[symmetric] del: upt_Suc)
  have rr: "resolve None (resolve None p) = resolve None p"
    by (cases p) (simp_all add: resolve_def)
  have step: "getServiceOptions_run (Suc n) parse name maxRetries (p, r)
      = getServiceOptions_run n parse name (maxRetries - 1) (?p1, ?r1)"
    by (simp add: getServiceOptions_attempt_failed[OF f0])
  have a: "maxRetries - 1 - int n = maxRetries - int (Suc n)" by simp
  have b: "(if 0 < n \<and> maxRetries - 1 - int n < 0 then resolve None ?p1 else ?p1)
      = (if 0 < Suc n \<and> maxRetries - int (Suc n) < 0 then resolve None p else p)"
    by (auto simp: rr)
  have c: "add_calls (concat (map (\<lambda>i. [Get ?key False,
              SetTimeout ((MAX_RETRIES - (maxRetries - 1 - int i)) * 500)]) [0..<n])) ?r1
      = add_calls (concat (map (\<lambda>i. [Get ?key False,
              SetTimeout ((MAX_RETRIES - (maxRetries - int i)) * 500)]) [0..<Suc n])) r"
    unfolding m by simp
  have "getServiceOptions_run (Suc n) parse name maxRetries (p, r)
      = (Scheduled (maxRetries - 1 - int n),
         (if 0 < n \<and> maxRetries - 1 - int n < 0 then resolve None ?p1 else ?p1),
         add_calls (concat (map (\<lambda>i. [Get ?key False,
              SetTimeout ((MAX_RETRIES - (maxRetries - 1 - int i)) * 500)]) [0..<n])) ?r1)"
    unfolding step by (rule Suc.IH[OF fs])
  also have "\<dots> = (Scheduled (maxRetries - int (Suc n)),
         (if 0 < Suc n \<and> maxRetries - int (Suc n) < 0 then resolve None p else p),
         add_calls (concat (map (\<lambda>i. [Get ?key False,
              SetTimeout ((MAX_RETRIES - (maxRetries - int i)) * 500)]) [0..<Suc n])) r)"
    by (subst b, subst c, subst a) (rule refl)
  finally show ?case .
qed


lemma getServiceOptions_priv_failed:
  assumes "\<forall>i < n. read_failed (nth_reply r (path_join [SERVICES_OPTIONS_KEY, name]) (2 * i))"
  shows "getServiceOptions_priv n parse name r =
     (Scheduled (10 - int n),
      (if 11 \<le> n then Resolved None else Pending),
      add_calls (failed_attempts (path_join [SERVICES_OPTIONS_KEY, name]) n) r)"
proof -
  have t: "(\<lambda>i. [Get (path_join [SERVICES_OPTIONS_KEY, name]) False,
                 SetTimeout ((MAX_RETRIES - (MAX_RETRIES - int i)) * 500)])
         = (\<lambda>i. [Get (path_join [SERVICES_OPTIONS_KEY, name]) False, SetTimeout (500 * int i)])"
    by (simp add: fun_eq_iff)
  have p: "(if 0 < n \<and> MAX_RETRIES - int n < 0 then resolve None Pending else Pending)
         = (if 11 \<le> n then Resolved None else Pending)"
    by (auto simp: MAX_RETRIES_def resolve_def)
  have m: "MAX_RETRIES - int n = 10 - int n" by (simp add: MAX_RETRIES_def)
  have "getServiceOptions_priv n parse name r =
     (Scheduled (MAX_RETRIES - int n),
      (if 0 < n \<and> MAX_RETRIES - int n < 0 then resolve None Pending else Pending),
      add_calls (concat (map (\<lambda>i. [Get (path_join [SERVICES_OPTIONS_KEY, name]) False,
                 SetTimeout ((MAX_RETRIES - (MAX_RETRIES - int i)) * 500)]) [0..<n])) r)"
    unfolding getServiceOptions_priv_def by (rule getServiceOptions_run_failed[OF assms])
  also have "\<dots> = (Scheduled (10 - int n),
      (if 11 \<le> n then Resolved None else Pending),
      add_calls (failed_attempts (path_join [SERVICES_OPTIONS_KEY, name]) n) r)"
    by (subst p, subst t, subst m) (simp only: failed_attempts_def)
  finally show ?thesis .
qed

lemma getServiceOptions_run_add:
  "getServiceOptions_run n parse name maxRetries s = (Scheduled m, s') \<Longrightarrow>
     getServiceOptions_run (n + k) parse name maxRetries s = getServiceOptions_run k parse name m s'"
proof (induction n arbitrary: maxRetries s)
  case 0
  then show ?case by simp
next
  case (Suc n)
  obtain a s1 where at: "getServiceOptions_attempt parse name maxRetries s = (a, s1)"
    by (cases "getServiceOptions_attempt parse name maxRetries s")
  show ?case
  proof (cases a)
    case (Scheduled m1)
    with at Suc.prems have "getServiceOptions_run n parse name m1 s1 = (Scheduled m, s')" by simp
    from Suc.IH[OF this] at Scheduled show ?thesis by simp
  next
    case Nothing
    with at Suc.prems show ?thesis by simp
  next
    case Thrown
    with at Suc.prems show ?thesis by simp
  qed
qed

lemma getServiceOptions_priv_found:
  assumes f: "\<forall>i < n. read_failed (nth_reply r (path_join [SERVICES_OPTIONS_KEY, name]) (2 * i))"
    and n: "n \<le> 10"
    and r: "nth_reply r (path_join [SERVICES_OPTIONS_KEY, name]) (2 * n)
              = \<lparr>err = None, body = Some \<lparr>node = Some nd\<rparr>\<rparr>"
    and v: "parse (node_value nd) = Some v"
  shows "getServiceOptions_priv (Suc n) parse name r =
     (Nothing, Resolved (Some v),
      add_calls (failed_attempts (path_join [SERVICES_OPTIONS_KEY, name]) n
                 @ [Get (path_join [SERVICES_OPTIONS_KEY, name]) False]) r)"
proof -
  let ?key = "path_join [SERVICES_OPTIONS_KEY, name]"
  let ?r1 = "add_calls (failed_attempts ?key n) r"
  have a: "getServiceOptions_run n parse name MAX_RETRIES (Pending, r)
      = (Scheduled (10 - int n), Pending, ?r1)"
    using getServiceOptions_priv_failed[OF f, of parse] n
    by (simp add: getServiceOptions_priv_def)
  have r1: "nth_reply ?r1 ?key 0 = \<lparr>err = None, body = Some \<lparr>node = Some nd\<rparr>\<rparr>"
    using r by simp
  have "getServiceOptions_run (n + 1) parse name MAX_RETRIES (Pending, r)
      = getServiceOptions_run 1 parse name (10 - int n) (Pending, ?r1)"
    by (rule getServiceOptions_run_add[OF a])
  also have "\<dots> = (Nothing, resolve (Some v) Pending, add_calls [Get ?key False] ?r1)"
    using getServiceOptions_attempt_found[where r = ?r1 and name = name and parse = parse
        and nd = nd and v = v and p = Pending and maxRetries = "10 - int n", OF r1 v]
    by simp
  finally show ?thesis
    by (simp add: getServiceOptions_priv_def resolve_def)
qed


lemma options_test_key: "path_join [SERVICES_OPTIONS_KEY, ''test''] = ''services-options/test''"
  by (simp add: path_join2_plain plain_services plain_segment_def SERVICES_OPTIONS_KEY_def)

lemma store_down_failed: "read_failed (store_down n k)"
  by (simp add: read_failed_def store_down_def)

subsection \<open>The store after a registration\<close>

lemma child_of_plain: "child_of d (d @ ''/'' @ s) \<longleftrightarrow> s \<noteq> [] \<and> CHR ''/'' \<notin> set s"
  by (simp add: child_of_def)

lemma child_ofD: "child_of d k \<Longrightarrow> k = d @ ''/'' @ drop (length d + 1) k"
proof -
  assume "child_of d k"
  then have "take (length d + 1) k = d @ ''/''" by (simp add: child_of_def)
  then have "take (length d + 1) k @ drop (length d + 1) k = (d @ ''/'') @ drop (length d + 1) k"
    by (rule arg_cong)
  then have "k = (d @ ''/'') @ drop (length d + 1) k"
    by (simp only: append_take_drop_id)
  then show ?thesis by (simp only: append_assoc)
qed

lemma options_key_no_child: "\<not> child_of (''services/'' @ name) (''services-options/'' @ name')"
proof
  assume "child_of (''services/'' @ name) (''services-options/'' @ name')"
  from child_ofD[OF this] show False by simp
qed

lemma registered_store:
  assumes "plain_segment name" "plain_segment uuid"
  shows "store_apply t0
       [Set (path_join [SERVICES_KEY, name, uuid]) v \<lparr>set_maxRetries = 3, set_ttl = Some T\<rparr>,
        Set (path_join [SERVICES_OPTIONS_KEY, name]) w \<lparr>set_maxRetries = 3, set_ttl = None\<rparr>] []
     = [\<lparr>lease_key = ''services-options/'' @ name, lease_value = w, lease_expiry = None\<rparr>,
        \<lparr>lease_key = ''services/'' @ name @ ''/'' @ uuid, lease_value = v,
         lease_expiry = Some (t0 + nat T)\<rparr>]"
  using assms
  by (simp add: path_join3_plain path_join2_plain plain_services store_set_def)
     (simp add: SERVICES_KEY_def SERVICES_OPTIONS_KEY_def)


lemma store_read_options:
  "store_read t
     [\<lparr>lease_key = ''services-options/'' @ name, lease_value = w, lease_expiry = None\<rparr>,
      \<lparr>lease_key = ''services/'' @ name @ ''/'' @ uuid, lease_value = v, lease_expiry = Some x\<rparr>]
     (''services-options/'' @ name)
   = \<lparr>err = None,
      body = Some \<lparr>node = Some (Node (''services-options/'' @ name) (Some w) None)\<rparr>\<rparr>"
  by (simp add: store_read_def live_def)

lemma store_read_records_expired:
  assumes "x \<le> t"
  shows "store_read t
     [\<lparr>lease_key = ''services-options/'' @ name, lease_value = w, lease_expiry = None\<rparr>,
      \<lparr>lease_key = ''services/'' @ name @ ''/'' @ uuid, lease_value = v, lease_expiry = Some x\<rparr>]
     (''services/'' @ name)
   = \<lparr>err = Some ''Key not found'', body = None\<rparr>"
  using assms by (simp add: store_read_def live_def options_key_no_child[simplified])

lemma store_read_records_live:
  assumes "t < x" and "plain_segment uuid"
  shows "store_read t
     [\<lparr>lease_key = ''services-options/'' @ name, lease_value = w, lease_expiry = None\<rparr>,
      \<lparr>lease_key = ''services/'' @ name @ ''/'' @ uuid, lease_value = v, lease_expiry = Some x\<rparr>]
     (''services/'' @ name)
   = \<lparr>err = None,
      body = Some \<lparr>node = Some (Node (''services/'' @ name) None
        (Some [Node (''services/'' @ name @ ''/'' @ uuid) (Some v) None]))\<rparr>\<rparr>"
proof -
  have c: "child_of (''services/'' @ name) (''services/'' @ name @ ''/'' @ uuid)"
    using child_of_plain[of "''services/'' @ name" uuid] assms(2)
    by (simp add: plain_segment_def)
  show ?thesis
    using assms(1) c by (simp add: store_read_def live_def options_key_no_child[simplified])
qed


lemma store_read_root:
  "store_read t
     [\<lparr>lease_key = ''services-options/'' @ name, lease_value = w, lease_expiry = None\<rparr>,
      \<lparr>lease_key = ''services/'' @ name @ ''/'' @ uuid, lease_value = v, lease_expiry = Some x\<rparr>]
     ''services''
   = \<lparr>err = Some ''Key not found'', body = None\<rparr>"
  by (simp add: store_read_def live_def child_of_def)

lemma registered_then_expired:
  assumes "ttl (options r) = Some T"
    and "plain_segment name" and "plain_segment uuid"
    and "parse_options (Some (stringify_options opts)) = Some opts"
    and "parse (Some (stringify \<lparr>service_id = uuid, service_name = name, connection = conn\<rparr>))
           = Some \<lparr>service_id = uuid, service_name = name, connection = conn\<rparr>"
    and "writes = drop (length (calls (etcd r)))
           (calls (etcd (snd (register stringify stringify_options uuid name conn opts r))))"
    and "cache_miss r2 name"
    and "reply (etcd r2) = (\<lambda>n. store_read t (store_apply t0 writes []))"
  shows "writes =
      [Set (''services/'' @ name @ ''/'' @ uuid)
           (stringify \<lparr>service_id = uuid, service_name = name, connection = conn\<rparr>)
           \<lparr>set_maxRetries = 3, set_ttl = Some T\<rparr>,
       Set (''services-options/'' @ name) (stringify_options opts)
           \<lparr>set_maxRetries = 3, set_ttl = None\<rparr>]
    \<and> (t < t0 + nat T \<longrightarrow>
         fst (getService parse name r2)
           = Some [\<lparr>service_id = uuid, service_name = name, connection = conn\<rparr>])
    \<and> (t0 + nat T \<le> t \<longrightarrow> fst (getService parse name r2) = None)
    \<and> fst (snd (getServiceOptions_priv 1 parse_options name r2)) = Resolved (Some opts)
    \<and> fst (getServiceOptions_priv 1 parse_options name r2) = Nothing"
proof -
  let ?rec = "\<lparr>service_id = uuid, service_name = name, connection = conn\<rparr>"
  let ?st = "[\<lparr>lease_key = ''services-options/'' @ name, lease_value = stringify_options opts,
               lease_expiry = None\<rparr>,
              \<lparr>lease_key = ''services/'' @ name @ ''/'' @ uuid, lease_value = stringify ?rec,
               lease_expiry = Some (t0 + nat T)\<rparr>]"
  have k: "path_join [SERVICES_KEY, name, uuid] = ''services/'' @ name @ ''/'' @ uuid"
    "path_join [SERVICES_OPTIONS_KEY, name] = ''services-options/'' @ name"
    "path_join [SERVICES_KEY, name] = ''services/'' @ name"
    using assms(2,3)
    by (simp_all add: path_join3_plain path_join2_plain plain_services)
       (simp_all add: SERVICES_KEY_def SERVICES_OPTIONS_KEY_def)
  have w: "writes =
      [Set (path_join [SERVICES_KEY, name, uuid]) (stringify ?rec)
           \<lparr>set_maxRetries = 3, set_ttl = Some T\<rparr>,
       Set (path_join [SERVICES_OPTIONS_KEY, name]) (stringify_options opts)
           \<lparr>set_maxRetries = 3, set_ttl = None\<rparr>]"
    using assms(1,6) by (simp add: register_calls)
  have st: "store_apply t0 writes [] = ?st"
    unfolding w by (rule registered_store[OF assms(2,3)])
  have rep: "nth_reply r2 key i = store_read t ?st key" for key i
    using assms(8) st by (simp add: nth_reply_def)
  have a: "writes =
      [Set (''services/'' @ name @ ''/'' @ uuid) (stringify ?rec)
           \<lparr>set_maxRetries = 3, set_ttl = Some T\<rparr>,
       Set (''services-options/'' @ name) (stringify_options opts)
           \<lparr>set_maxRetries = 3, set_ttl = None\<rparr>]"
    using w by (simp only: k)
  have b: "fst (getService parse name r2) = Some [?rec]" if "t < t0 + nat T"
  proof -
    have "getService_read parse (nth_reply r2 (path_join [SERVICES_KEY, name]) 0) = Inr [?rec]"
      using store_read_records_live[OF that assms(3), simplified] assms(5)
      by (simp add: rep k getService_read_def)
    then show ?thesis
      unfolding getService_def using assms(7)
      by (subst getService_priv_miss_step) simp_all
  qed
  have c: "fst (getService parse name r2) = None" if "t0 + nat T \<le> t"
  proof -
    have "reply (etcd r2) n SERVICES_KEY = \<lparr>err = Some ''Key not found'', body = None\<rparr>" for n
      using assms(8) st store_read_root[of t name "stringify_options opts" uuid "stringify ?rec"]
      by (simp add: SERVICES_KEY_def)
    then have u: "\<forall>n. \<not> offers (reply (etcd r2) n SERVICES_KEY) name"
      by (simp add: offers_def)
    have "no_nodes (nth_reply r2 (path_join [SERVICES_KEY, name]) i)" for i
      using store_read_records_expired[OF that, simplified]
      by (simp add: rep k no_nodes_def)
    then have "\<forall>i < 6. attempt_failed parse name r2 i"
      using assms(7) u by (auto intro!: attempts_fail_unoffered)
    then show ?thesis by (simp add: getService_exhausted)
  qed
  have d: "getServiceOptions_priv (Suc 0) parse_options name r2
      = (Nothing, Resolved (Some opts),
         add_calls (failed_attempts (path_join [SERVICES_OPTIONS_KEY, name]) 0
                    @ [Get (path_join [SERVICES_OPTIONS_KEY, name]) False]) r2)"
  proof (rule getServiceOptions_priv_found)
    show "\<forall>i < 0. read_failed (nth_reply r2 (path_join [SERVICES_OPTIONS_KEY, name]) (2 * i))"
      by simp
    show "(0::nat) \<le> 10" by simp
    show "nth_reply r2 (path_join [SERVICES_OPTIONS_KEY, name]) (2 * 0)
        = \<lparr>err = None, body = Some \<lparr>node = Some (Node (''services-options/'' @ name)
             (Some (stringify_options opts)) None)\<rparr>\<rparr>"
      by (simp add: rep k store_read_options[simplified])
    show "parse_options (node_value (Node (''services-options/'' @ name)
             (Some (stringify_options opts)) None)) = Some opts"
      using assms(4) by simp
  qed
  from a b c d show ?thesis by simp
qed

lemma getServiceOptions_attempt_unparsed:
  assumes "nth_reply r (path_join [SERVICES_OPTIONS_KEY, name]) 0
             = \<lparr>err = None, body = Some \<lparr>node = Some nd\<rparr>\<rparr>"
    and "parse (node_value nd) = None"
  shows "getServiceOptions_attempt parse name maxRetries (p, r) =
     (Thrown, p, add_calls [Get (path_join [SERVICES_OPTIONS_KEY, name]) False] r)"
  using assms
  by (simp add: getServiceOptions_attempt_def etcd_get_def nth_reply_def read_failed_def
      add_calls_def Let_def)

lemma getServiceOptions_priv_unparsed:
  assumes "nth_reply r (path_join [SERVICES_OPTIONS_KEY, name]) 0
             = \<lparr>err = None, body = Some \<lparr>node = Some nd\<rparr>\<rparr>"
    and "parse (node_value nd) = None"
  shows "getServiceOptions_priv (Suc fuel) parse name r =
     (Thrown, Pending, add_calls [Get (path_join [SERVICES_OPTIONS_KEY, name]) False] r)"
  using getServiceOptions_attempt_unparsed[where p = Pending and maxRetries = MAX_RETRIES
      and parse = parse and r = r and name = name and nd = nd] assms
  by (simp add: getServiceOptions_priv_def)

text \<open>
  With a store whose reads of the options key all fail, the options lookup never comes to
  rest: however many attempts are followed, a timer for the next one is left.
\<close>

lemma getServiceOptions_keeps_retrying:
  assumes "\<forall>i. read_failed (nth_reply r (path_join [SERVICES_OPTIONS_KEY, name]) i)"
  shows "fst (getServiceOptions_priv n parse name r) = Scheduled (10 - int n)"
    and "calls (etcd (snd (snd (getServiceOptions_priv n parse name r))))
          = calls (etcd r) @ failed_attempts (path_join [SERVICES_OPTIONS_KEY, name]) n"
proof -
  from assms have "\<forall>i < n. read_failed (nth_reply r (path_join [SERVICES_OPTIONS_KEY, name]) (2 * i))"
    by simp
  from getServiceOptions_priv_failed[OF this, of parse]
  show "fst (getServiceOptions_priv n parse name r) = Scheduled (10 - int n)"
    and "calls (etcd (snd (snd (getServiceOptions_priv n parse name r))))
          = calls (etcd r) @ failed_attempts (path_join [SERVICES_OPTIONS_KEY, name]) n"
    by simp_all
qed

subsection \<open>A new registry whose reload comes in during its first read\<close>

lemma reloading_registry_simps:
  "cache_miss (constructor world_reloading opts) name"
  "reply (etcd (constructor world_reloading opts)) = store_listing"
  "calls (etcd (constructor world_reloading opts)) = [Get ''services'' True, Watcher ''services'']"
  "arrivals (etcd (constructor world_reloading opts)) = (\<lambda>n. if n = 2 then [Reply] else [])"
  by (simp_all add: constructor_def loadServices_priv_def etcd_get_def etcd_watcher_def
      cache_miss_def world_reloading_def SERVICES_KEY_def Let_def)

lemma reloading_first_read:
  "services (attempt_state example_parse name (constructor world_reloading opts) 1) ''test''
     = Some [example_record]"
  by (simp add: after_read_def etcd_getSync_def deliver_def loadServices_callback_def
      constructor_def loadServices_priv_def etcd_get_def etcd_watcher_def world_reloading_def
      store_listing_def path_basename_def example_parse_def SERVICES_KEY_def Let_def)

lemma reloading_later_reads:
  "attempt_state example_parse name (constructor world_reloading opts) (Suc (i + 1))
     = add_calls [GetSync (path_join [SERVICES_KEY, name]) True]
         (attempt_state example_parse name (constructor world_reloading opts) (i + 1))"
  by (simp add: after_read_quiet reloading_registry_simps del: attempt_state.simps(2))
     (simp add: after_read_quiet reloading_registry_simps)

lemma reloading_sixth_read:
  "services (attempt_state example_parse name (constructor world_reloading opts) 6) ''test''
     = Some [example_record]"
  using reloading_later_reads[of name opts 0] reloading_later_reads[of name opts 1]
    reloading_later_reads[of name opts 2] reloading_later_reads[of name opts 3]
    reloading_later_reads[of name opts 4] reloading_first_read[of name opts]
  by (simp add: numeral_eq_Suc del: attempt_state.simps)

lemma reloading_unoffered:
  "name \<noteq> ''test'' \<Longrightarrow> \<not> offers (store_listing n SERVICES_KEY) name"
  by (auto simp: store_listing_def offers_def reply_nodes_def path_basename_def SERVICES_KEY_def)

lemma reloading_lookup_of_nobody:
  "getService example_parse ''nobody'' (constructor world_reloading opts)
     = (None, attempt_state example_parse ''nobody'' (constructor world_reloading opts) 6)"
proof -
  have k: "path_join [SERVICES_KEY, ''nobody''] = ''services/nobody''"
    by (simp add: path_join2_plain plain_services plain_segment_def SERVICES_KEY_def)
  have u: "\<forall>n. \<not> offers (reply (etcd (constructor world_reloading opts)) n SERVICES_KEY) ''nobody''"
    by (simp add: reloading_registry_simps reloading_unoffered)
  have f: "no_nodes (nth_reply (constructor world_reloading opts) (path_join [SERVICES_KEY, ''nobody'']) i)"
    for i
    by (simp add: reloading_registry_simps nth_reply_def k store_listing_def no_nodes_def)
  have "\<forall>i < 6. attempt_failed example_parse ''nobody'' (constructor world_reloading opts) i"
    using u f by (auto intro!: attempts_fail_unoffered simp: reloading_registry_simps)
  then show ?thesis by (rule getService_exhausted)
qed

section \<open>The claims\<close>

text \<open>
  C1. The spec gives every record write a lease of the configured \<open>ttl\<close>, 120 when the
  option is unset. The constructor stores the default in the field \<open>tll\<close>, and
  \<open>_saveService\<close> reads \<open>ttl\<close>: with an options object without \<open>ttl\<close>, the record
  write of \<open>register\<close> carries no lease at all, while \<open>tll\<close> holds 120.
\<close>

theorem register_without_ttl_option:
  "ttl (options (constructor hosts \<lparr>ttl = None, tll = None\<rparr>)) = None
   \<and> tll (options (constructor hosts \<lparr>ttl = None, tll = None\<rparr>)) = Some 120
   \<and> calls (etcd (snd (register stringify stringify_options uuid name conn opts
         (constructor hosts \<lparr>ttl = None, tll = None\<rparr>))))
       = [Get SERVICES_KEY True, Watcher SERVICES_KEY,
          Set (path_join [SERVICES_KEY, name, uuid])
              (stringify \<lparr>service_id = uuid, service_name = name, connection = conn\<rparr>)
              \<lparr>set_maxRetries = 3, set_ttl = None\<rparr>,
          Set (path_join [SERVICES_OPTIONS_KEY, name]) (stringify_options opts)
              \<lparr>set_maxRetries = 3, set_ttl = None\<rparr>]"
  by (simp add: constructor_def loadServices_priv_def register_def saveService_priv_def
      saveServiceOptions_priv_def etcd_set_def etcd_get_def etcd_watcher_def or_default_def
      TTL_SECONDS_def Let_def)

text \<open>
  C7. The claim files every record under \<open>services/<name>/<id>\<close> and the options under
  \<open>services-options/<name>\<close>. The keys are computed by \<open>path.join\<close>, which drops an
  empty segment and resolves \<open>.\<close> and \<open>..\<close>. So, as amended: \<open>register\<close> writes the
  record under \<open>path.join('services', name, id)\<close> and, in lib/index.js, the options
  under \<open>path.join('services-options', name)\<close>; the variant whose records carry their
  options writes the record under the same key and nothing else. For a name and an id
  that are plain path segments these keys are literally \<open>services/<name>/<id>\<close> and
  \<open>services-options/<name>\<close>. In general the record key (for an id that is not empty)
  and the options key (for a name that is not empty) are the normal forms of these two
  paths.
\<close>

theorem register_storage_layout:
  "calls (etcd (snd (register stringify stringify_options uuid name conn opts r)))
     = calls (etcd r) @
       [Set (path_join [''services'', name, uuid])
            (stringify \<lparr>service_id = uuid, service_name = name, connection = conn\<rparr>)
            \<lparr>set_maxRetries = 3, set_ttl = ttl (options r)\<rparr>,
        Set (path_join [''services-options'', name]) (stringify_options opts)
            \<lparr>set_maxRetries = 3, set_ttl = None\<rparr>]
   \<and> calls (etcd (snd (register_with_options stringify' uuid name conn opts r)))
     = calls (etcd r) @
       [Set (path_join [''services'', name, uuid])
            (stringify' \<lparr>service_id = uuid, service_name = name, connection = conn,
                          service_options = opts\<rparr>)
            \<lparr>set_maxRetries = 3, set_ttl = ttl (options r)\<rparr>]
   \<and> (plain_segment name \<and> plain_segment uuid \<longrightarrow>
        path_join [''services'', name, uuid] = ''services/'' @ name @ ''/'' @ uuid
        \<and> path_join [''services-options'', name] = ''services-options/'' @ name)
   \<and> (uuid \<noteq> [] \<longrightarrow>
        path_join [''services'', name, uuid] = normalize (''services/'' @ name @ ''/'' @ uuid))
   \<and> (name \<noteq> [] \<longrightarrow>
        path_join [''services-options'', name] = normalize (''services-options/'' @ name))"
proof -
  have k: "SERVICES_KEY = ''services''" "SERVICES_OPTIONS_KEY = ''services-options''"
    by (simp_all add: SERVICES_KEY_def SERVICES_OPTIONS_KEY_def)
  have p: "plain_segment ''services''" "plain_segment ''services-options''"
    using plain_services by (simp_all only: k)
  have layout: "calls (etcd (snd (register stringify stringify_options uuid name conn opts r)))
       = calls (etcd r) @
         [Set (path_join [''services'', name, uuid])
              (stringify \<lparr>service_id = uuid, service_name = name, connection = conn\<rparr>)
              \<lparr>set_maxRetries = 3, set_ttl = ttl (options r)\<rparr>,
          Set (path_join [''services-options'', name]) (stringify_options opts)
              \<lparr>set_maxRetries = 3, set_ttl = None\<rparr>]"
    "calls (etcd (snd (register_with_options stringify' uuid name conn opts r)))
       = calls (etcd r) @
         [Set (path_join [''services'', name, uuid])
              (stringify' \<lparr>service_id = uuid, service_name = name, connection = conn,
                            service_options = opts\<rparr>)
              \<lparr>set_maxRetries = 3, set_ttl = ttl (options r)\<rparr>]"
    by (simp_all add: register_calls register_with_options_calls k[symmetric])
  have plain: "plain_segment name \<and> plain_segment uuid \<longrightarrow>
        path_join [''services'', name, uuid] = ''services/'' @ name @ ''/'' @ uuid
        \<and> path_join [''services-options'', name] = ''services-options/'' @ name"
    using path_join3_plain[OF p(1)] path_join2_plain[OF p(2)] by simp
  have normal: "uuid \<noteq> [] \<longrightarrow>
        path_join [''services'', name, uuid] = normalize (''services/'' @ name @ ''/'' @ uuid)"
    "name \<noteq> [] \<longrightarrow>
        path_join [''services-options'', name] = normalize (''services-options/'' @ name)"
    using record_key_normal_form options_key_normal_form by blast+
  from layout plain normal show ?thesis by blast
qed

theorem register_storage_layout_witness:
  "calls (etcd (snd (register (\<lambda>s. service_id s) (\<lambda>x. x) ''u1'' ''test'' (1::nat) ''{}''
       (constructor world_holding \<lparr>ttl = Some 5, tll = None\<rparr> :: nat service registry))))
     = [Get ''services'' True, Watcher ''services'',
        Set ''services/test/u1'' ''u1'' \<lparr>set_maxRetries = 3, set_ttl = Some 5\<rparr>,
        Set ''services-options/test'' ''{}'' \<lparr>set_maxRetries = 3, set_ttl = None\<rparr>]
   \<and> path_join [''services'', ''a/../b'', ''u1''] = ''services/b/u1''
   \<and> path_join [''services-options'', ''a/../b''] = ''services-options/b''"
proof -
  have p: "plain_segment ''test'' \<and> plain_segment ''u1''"
    by (simp add: plain_segment_def)
  have c: "calls (etcd (constructor world_holding \<lparr>ttl = Some 5, tll = None\<rparr> :: nat service registry))
      = [Get ''services'' True, Watcher ''services'']"
      "ttl (options (constructor world_holding \<lparr>ttl = Some 5, tll = None\<rparr> :: nat service registry)) = Some 5"
    by (simp_all add: constructor_def loadServices_priv_def etcd_get_def etcd_watcher_def
        SERVICES_KEY_def Let_def)
  have n: "normalize ''services/a/../b/u1'' = ''services/b/u1''"
    "normalize ''services-options/a/../b'' = ''services-options/b''"
    by (simp_all add: normalize_def)
  show ?thesis
    using register_storage_layout[where stringify = "\<lambda>s. service_id s"
        and stringify_options = "\<lambda>x. x" and uuid = "''u1''" and name = "''test''"
        and conn = "1::nat" and opts = "''{}''" and stringify' = "\<lambda>s. service_id s"
        and r = "constructor world_holding \<lparr>ttl = Some 5, tll = None\<rparr> :: nat service registry"]
      register_storage_layout[where stringify = "\<lambda>s. service_id s"
        and stringify_options = "\<lambda>x. x" and uuid = "''u1''" and name = "''a/../b''"
        and conn = "1::nat" and opts = "''{}''" and stringify' = "\<lambda>s. service_id s"
        and r = "constructor world_holding \<lparr>ttl = Some 5, tll = None\<rparr> :: nat service registry"]
      p c n
    by simp
qed

text \<open>
  The keys of a registration under the name \<open>..\<close>, and under the empty name: neither
  record key is \<open>services/<name>/<id>\<close>, neither options key is
  \<open>services-options/<name>\<close>.
\<close>

theorem register_keys_of_odd_names:
  "calls (etcd (snd (register service_id (\<lambda>x. x) ''u1'' ''..'' () ''{}''
       (registry_uncached store_down))))
     = [Set ''u1'' ''u1'' \<lparr>set_maxRetries = 3, set_ttl = Some 5\<rparr>,
        Set ''.'' ''{}'' \<lparr>set_maxRetries = 3, set_ttl = None\<rparr>]
   \<and> calls (etcd (snd (register service_id (\<lambda>x. x) ''u1'' [] () ''{}''
       (registry_uncached store_down))))
     = [Set ''services/u1'' ''u1'' \<lparr>set_maxRetries = 3, set_ttl = Some 5\<rparr>,
        Set ''services-options'' ''{}'' \<lparr>set_maxRetries = 3, set_ttl = None\<rparr>]
   \<and> ''u1'' \<noteq> ''services/'' @ ''..'' @ ''/'' @ ''u1''
   \<and> ''.'' \<noteq> ''services-options/'' @ ''..''
   \<and> ''services/u1'' \<noteq> ''services/'' @ [] @ ''/'' @ ''u1''
   \<and> ''services-options'' \<noteq> ''services-options/'' @ []"
proof -
  have k: "path_join [SERVICES_KEY, ''..'', ''u1''] = ''u1''"
    "path_join [SERVICES_OPTIONS_KEY, ''..''] = ''.''"
    "path_join [SERVICES_KEY, [], ''u1''] = ''services/u1''"
    "path_join [SERVICES_OPTIONS_KEY, []] = ''services-options''"
    by (simp_all add: path_join_def normalize_def SERVICES_KEY_def SERVICES_OPTIONS_KEY_def)
  show ?thesis
    by (simp add: register_calls k example_registry_simps)
qed

text \<open>
  C2. \<open>getService\<close> resolves in this order. A cache entry with at least one record is
  returned at once and the registry is left as it was: no call reaches the store.
  Otherwise the store is read, between one and six times. Each attempt looks in the
  cache first, which the handlers that ran during the read before it may have filled,
  and then reads the store: the first attempt that finds a list with a record, in the
  cache or in a reply whose nodes all deserialise, returns that list, after the failed
  attempts before it. When all six attempts fail the result is \<open>undefined\<close>: the function
  returns it, it does not throw; and \<open>undefined\<close> is returned in no other case.
\<close>

theorem getService_resolution_order:
  "(\<forall>nodes. services r name = Some nodes \<and> nodes \<noteq> [] \<longrightarrow>
       getService parse name r = (Some nodes, r))
   \<and> (cache_miss r name \<longrightarrow>
       (\<exists>k. 1 \<le> k \<and> k \<le> 6
          \<and> calls (etcd (snd (getService parse name r)))
              = calls (etcd r) @ replicate k (GetSync (path_join [SERVICES_KEY, name]) True)))
   \<and> (\<forall>j nodes. j < 6 \<and> (\<forall>i < j. attempt_failed parse name r i)
          \<and> cache_miss (attempt_state parse name r j) name
          \<and> lists_records parse (nth_reply r (path_join [SERVICES_KEY, name]) j) nodes \<longrightarrow>
       getService parse name r = (Some nodes, attempt_state parse name r (Suc j)))
   \<and> (\<forall>j nodes. j < 6 \<and> (\<forall>i < j. attempt_failed parse name r i)
          \<and> services (attempt_state parse name r j) name = Some nodes \<and> nodes \<noteq> [] \<longrightarrow>
       getService parse name r = (Some nodes, attempt_state parse name r j))
   \<and> ((\<forall>i < 6. attempt_failed parse name r i) \<longrightarrow>
       getService parse name r = (None, attempt_state parse name r 6))
   \<and> (fst (getService parse name r) = None \<longrightarrow> (\<forall>i < 6. attempt_failed parse name r i))"
proof (intro conjI allI impI)
  fix nodes assume "services r name = Some nodes \<and> nodes \<noteq> []"
  then show "getService parse name r = (Some nodes, r)"
    unfolding getService_def by (simp add: getService_priv_hit)
next
  assume m: "cache_miss r name"
  from getService_outcome[of parse name r] obtain k where
    "k \<le> 6" "snd (getService parse name r) = attempt_state parse name r k"
    "cache_miss r name \<longrightarrow> 1 \<le> k" by blast
  with m show "\<exists>k. 1 \<le> k \<and> k \<le> 6
          \<and> calls (etcd (snd (getService parse name r)))
              = calls (etcd r) @ replicate k (GetSync (path_join [SERVICES_KEY, name]) True)"
    by (intro exI[of _ k]) simp
next
  fix j nodes
  assume "j < 6 \<and> (\<forall>i < j. attempt_failed parse name r i)
          \<and> cache_miss (attempt_state parse name r j) name
          \<and> lists_records parse (nth_reply r (path_join [SERVICES_KEY, name]) j) nodes"
  then show "getService parse name r = (Some nodes, attempt_state parse name r (Suc j))"
    by (intro getService_from_read) simp_all
next
  fix j nodes
  assume "j < 6 \<and> (\<forall>i < j. attempt_failed parse name r i)
          \<and> services (attempt_state parse name r j) name = Some nodes \<and> nodes \<noteq> []"
  then show "getService parse name r = (Some nodes, attempt_state parse name r j)"
    by (intro getService_from_cache) simp_all
next
  assume "\<forall>i < 6. attempt_failed parse name r i"
  then show "getService parse name r = (None, attempt_state parse name r 6)"
    by (rule getService_exhausted)
next
  fix i :: nat
  assume "fst (getService parse name r) = None" and "i < 6"
  with getService_outcome[of parse name r] show "attempt_failed parse name r i" by blast
qed

text \<open>
  A cached list; a store that is down; a store that holds the record, read at once; and
  a new registry whose first read fails while the reply to the reload of its
  constructor comes in: the second attempt finds the record in the cache, after one
  read.
\<close>

theorem getService_resolution_order_witness:
  "getService example_parse ''test'' registry_cached = (Some [example_record], registry_cached)
   \<and> fst (getService example_parse ''test'' (registry_uncached store_down)) = None
   \<and> calls (etcd (snd (getService example_parse ''test'' (registry_uncached store_down))))
       = replicate 6 (GetSync ''services/test'' True)
   \<and> getService example_parse ''test'' (registry_uncached (store_holding ''u1''))
       = (Some [example_record],
          add_calls [GetSync ''services/test'' True] (registry_uncached (store_holding ''u1'')))
   \<and> fst (getService example_parse ''test''
            (constructor world_reloading \<lparr>ttl = Some 5, tll = None\<rparr>)) = Some [example_record]
   \<and> calls (etcd (snd (getService example_parse ''test''
            (constructor world_reloading \<lparr>ttl = Some 5, tll = None\<rparr>))))
       = [Get ''services'' True, Watcher ''services'', GetSync ''services/test'' True]"
proof -
  let ?new = "constructor world_reloading \<lparr>ttl = Some 5, tll = None\<rparr> :: unit service registry"
  have down: "\<forall>i < 6. attempt_failed example_parse ''test'' (registry_uncached store_down) i"
    by (auto intro!: attempts_fail_quiet simp: example_registry_simps store_down_no_nodes)
  have quiet: "attempt_state example_parse ''test'' (registry_uncached hosts) k
      = add_calls (replicate k (GetSync ''services/test'' True)) (registry_uncached hosts)" for hosts k
    using attempt_state_quiet[of k "registry_uncached hosts" example_parse "''test''"]
    by (simp add: example_registry_simps services_test_key)
  have holding: "lists_records example_parse
      (nth_reply (registry_uncached (store_holding ''u1'')) (path_join [SERVICES_KEY, ''test'']) 0)
      [example_record]"
    by (simp add: example_registry_simps services_test_key store_holding_def lists_records_def
        example_parse_def)
  have new: "cache_miss ?new ''test''" "calls (etcd ?new) = [Get ''services'' True, Watcher ''services'']"
    "nth_reply ?new ''services/test'' 0 = \<lparr>err = Some ''down'', body = None\<rparr>"
    by (simp_all add: constructor_def loadServices_priv_def etcd_get_def etcd_watcher_def
        cache_miss_def nth_reply_def world_reloading_def store_listing_def SERVICES_KEY_def
        Let_def)
  have first: "\<forall>i < 1. attempt_failed example_parse ''test'' ?new i"
    using new by (simp add: attempt_failed_def services_test_key no_nodes_def)
  have refilled: "services (attempt_state example_parse ''test'' ?new 1) ''test''
      = Some [example_record]"
    by (simp add: after_read_def etcd_getSync_def deliver_def loadServices_callback_def
        constructor_def loadServices_priv_def etcd_get_def etcd_watcher_def world_reloading_def
        store_listing_def path_basename_def example_parse_def SERVICES_KEY_def Let_def)
  note here = getService_resolution_order[where parse = example_parse and name = "''test''"]
  have a: "getService example_parse ''test'' registry_cached = (Some [example_record], registry_cached)"
    using here[where r = registry_cached, THEN conjunct1, rule_format, of "[example_record]"]
    by (simp add: example_registry_simps)
  have b: "getService example_parse ''test'' (registry_uncached store_down)
      = (None, attempt_state example_parse ''test'' (registry_uncached store_down) 6)"
    using here[where r = "registry_uncached store_down"] down by blast
  have c: "getService example_parse ''test'' (registry_uncached (store_holding ''u1''))
      = (Some [example_record],
         attempt_state example_parse ''test'' (registry_uncached (store_holding ''u1'')) (Suc 0))"
    using here[where r = "registry_uncached (store_holding ''u1'')", THEN conjunct2, THEN conjunct2,
        THEN conjunct1, rule_format, of 0 "[example_record]"] holding
    by (simp add: example_registry_simps)
  have d: "getService example_parse ''test'' ?new
      = (Some [example_record], attempt_state example_parse ''test'' ?new 1)"
    using here[where r = ?new, THEN conjunct2, THEN conjunct2, THEN conjunct2,
        THEN conjunct1, rule_format, of 1 "[example_record]"] first refilled
    by simp
  show ?thesis
    unfolding a b c d
    by (simp add: quiet[simplified] new services_test_key example_registry_simps
        del: attempt_state.simps)
qed

text \<open>
  C8. \<open>getService\<close> never returns an empty list: the result is \<open>undefined\<close> or a list
  with at least one record. For a name without registrations, that is one the cache
  misses, under which every reply of the store shows no node, and which no reply to a
  reload of the cache offers, the result is \<open>undefined\<close>.
\<close>

theorem getService_never_empty:
  "fst (getService parse name r) \<noteq> Some []
   \<and> (cache_miss r name
        \<and> (\<forall>i < 6. no_nodes (nth_reply r (path_join [SERVICES_KEY, name]) i))
        \<and> (\<forall>n. \<not> offers (reply (etcd r) n SERVICES_KEY) name) \<longrightarrow>
        fst (getService parse name r) = None)"
proof (intro conjI impI)
  from getService_outcome[of parse name r]
  show "fst (getService parse name r) \<noteq> Some []" by blast
next
  assume a: "cache_miss r name
        \<and> (\<forall>i < 6. no_nodes (nth_reply r (path_join [SERVICES_KEY, name]) i))
        \<and> (\<forall>n. \<not> offers (reply (etcd r) n SERVICES_KEY) name)"
  then have "\<forall>i < 6. attempt_failed parse name r i"
    by (auto intro!: attempts_fail_unoffered)
  then show "fst (getService parse name r) = None"
    by (simp add: getService_exhausted)
qed

text \<open>
  A new registry, to which the reply to the reload comes in during the first read and
  fills the cache with the records of another name.
\<close>

theorem getService_never_empty_witness:
  "fst (getService example_parse ''nobody''
          (constructor world_reloading \<lparr>ttl = Some 5, tll = None\<rparr>)) = None
   \<and> fst (getService example_parse ''nobody''
          (constructor world_reloading \<lparr>ttl = Some 5, tll = None\<rparr>)) \<noteq> Some []
   \<and> services (snd (getService example_parse ''nobody''
          (constructor world_reloading \<lparr>ttl = Some 5, tll = None\<rparr>))) ''test''
       = Some [example_record]"
proof -
  let ?new = "constructor world_reloading \<lparr>ttl = Some 5, tll = None\<rparr> :: unit service registry"
  have k: "path_join [SERVICES_KEY, ''nobody''] = ''services/nobody''"
    by (simp add: path_join2_plain plain_services plain_segment_def SERVICES_KEY_def)
  have new: "cache_miss ?new ''nobody''" "reply (etcd ?new) = store_listing"
    "calls (etcd ?new) = [Get ''services'' True, Watcher ''services'']"
    "arrivals (etcd ?new) = (\<lambda>n. if n = 2 then [Reply] else [])"
    by (simp_all add: constructor_def loadServices_priv_def etcd_get_def etcd_watcher_def
        cache_miss_def world_reloading_def SERVICES_KEY_def Let_def)
  have f: "\<forall>i < 6. no_nodes (nth_reply ?new (path_join [SERVICES_KEY, ''nobody'']) i)"
    by (simp add: nth_reply_def new k store_listing_def no_nodes_def)
  have u: "\<forall>n. \<not> offers (reply (etcd ?new) n SERVICES_KEY) ''nobody''"
    by (simp add: new store_listing_def offers_def reply_nodes_def path_basename_def
        SERVICES_KEY_def)
  have n: "fst (getService example_parse ''nobody'' ?new) = None"
    using getService_never_empty[where parse = example_parse and name = "''nobody''" and r = ?new]
      new(1) f u
    by simp
  have all: "\<forall>i < 6. attempt_failed example_parse ''nobody'' ?new i"
    using new(1) u f by (auto intro!: attempts_fail_unoffered)
  have s1: "services (attempt_state example_parse ''nobody'' ?new 1) ''test'' = Some [example_record]"
    by (simp add: after_read_def etcd_getSync_def deliver_def loadServices_callback_def
        constructor_def loadServices_priv_def etcd_get_def etcd_watcher_def world_reloading_def
        store_listing_def path_basename_def example_parse_def SERVICES_KEY_def Let_def)
  have later: "attempt_state example_parse ''nobody'' ?new (Suc (i + 1))
      = add_calls [GetSync ''services/nobody'' True] (attempt_state example_parse ''nobody'' ?new (i + 1))" for i
    by (simp add: after_read_quiet new k del: attempt_state.simps(2))
       (simp add: after_read_quiet new k)
  have s6: "services (attempt_state example_parse ''nobody'' ?new 6) ''test'' = Some [example_record]"
    using later[of 0] later[of 1] later[of 2] later[of 3] later[of 4] s1
    by (simp add: numeral_eq_Suc del: attempt_state.simps)
  show ?thesis
    using n s6 getService_exhausted[OF all] by simp
qed

text \<open>
  C9. \<open>getServiceNode\<close> returns the first record of the list \<open>getService\<close> returns, and
  \<open>undefined\<close> when \<open>getService\<close> returns \<open>undefined\<close> (an empty list, which
  \<open>getService\<close> never returns, would give \<open>undefined\<close> as well); it reads the first
  element only of a list that has one, and does to the registry what \<open>getService\<close> does.
\<close>

theorem getServiceNode_first_or_absent:
  "fst (getServiceNode parse name r) =
     (case fst (getService parse name r) of
        None \<Rightarrow> None
      | Some [] \<Rightarrow> None
      | Some (first # others) \<Rightarrow> Some first)
   \<and> snd (getServiceNode parse name r) = snd (getService parse name r)"
  by (simp add: getServiceNode_def Let_def split: prod.splits option.splits list.splits)

theorem getServiceNode_first_or_absent_witness:
  "fst (getServiceNode example_parse ''test'' registry_cached) = Some example_record
   \<and> fst (getServiceNode example_parse ''test'' (registry_uncached store_down)) = None"
proof -
  have h: "getService example_parse ''test'' registry_cached = (Some [example_record], registry_cached)"
    by (rule getService_from_cache[where j = 0, simplified]) (simp_all add: example_registry_simps)
  have m: "fst (getService example_parse ''test'' (registry_uncached store_down)) = None"
    by (subst getService_quiet_exhausted)
       (simp_all add: example_registry_simps store_down_no_nodes)
  show ?thesis
    using getServiceNode_first_or_absent[of example_parse "''test''" registry_cached]
      getServiceNode_first_or_absent[of example_parse "''test''" "registry_uncached store_down"]
    by (simp add: h m)
qed


text \<open>
  C3. When the lookup of \<open>renew\<close> finds no record with the given id (it returns
  \<open>undefined\<close>, or a list without that id), \<open>renew\<close> does nothing beyond the lookup:
  it returns, writes nothing to the store, and leaves the options as they were; the only
  calls it adds are the at most six reads of the lookup. The cache is the one the lookup
  leaves: as it was, when nothing arrives during the reads.
\<close>

theorem renew_unknown_is_noop:
  assumes "case fst (getService parse name r) of
             None \<Rightarrow> True
           | Some nodes \<Rightarrow> \<forall>n \<in> set nodes. service_id n \<noteq> ident"
  shows "renew parse stringify name ident r = snd (getService parse name r)
    \<and> filter is_Set (calls (etcd (renew parse stringify name ident r))) = filter is_Set (calls (etcd r))
    \<and> ((\<forall>i < 6. arrivals (etcd r) (length (calls (etcd r)) + i) = []) \<longrightarrow>
         services (renew parse stringify name ident r) = services r)
    \<and> options (renew parse stringify name ident r) = options r
    \<and> (\<exists>k \<le> 6. calls (etcd (renew parse stringify name ident r))
          = calls (etcd r) @ replicate k (GetSync (path_join [SERVICES_KEY, name]) True))"
proof -
  have e: "renew parse stringify name ident r = snd (getService parse name r)"
  proof (cases "fst (getService parse name r)")
    case None
    then show ?thesis by (auto simp: renew_def Let_def split: prod.splits)
  next
    case (Some nodes)
    with assms have "find (\<lambda>node. service_id node = ident) nodes = None"
      by (simp add: find_None_iff)
    with Some show ?thesis by (auto simp: renew_def Let_def split: prod.splits)
  qed
  have reads: "\<exists>k \<le> 6. calls (etcd (renew parse stringify name ident r))
          = calls (etcd r) @ replicate k (GetSync (path_join [SERVICES_KEY, name]) True)"
    unfolding e by (rule getService_reads)
  have frame: "filter is_Set (calls (etcd (renew parse stringify name ident r))) = filter is_Set (calls (etcd r))"
    "options (renew parse stringify name ident r) = options r"
    unfolding e by (rule getService_frame)+
  have cache: "services (renew parse stringify name ident r) = services r"
    if q: "\<forall>i < 6. arrivals (etcd r) (length (calls (etcd r)) + i) = []"
  proof -
    from getService_outcome[of parse name r] obtain k where
      k: "k \<le> 6" "snd (getService parse name r) = attempt_state parse name r k" by blast
    have "\<forall>i < k. arrivals (etcd r) (length (calls (etcd r)) + i) = []"
      using q k(1) by auto
    then have "attempt_state parse name r k
        = add_calls (replicate k (GetSync (path_join [SERVICES_KEY, name]) True)) r"
      by (rule attempt_state_quiet)
    then show ?thesis using e k(2) by simp
  qed
  from e frame reads cache show ?thesis by blast
qed

text \<open>
  A cached list without the id; a store that is down; and a new registry to which the
  reply to its reload comes in during the lookup: \<open>renew\<close> leaves the cache the lookup
  leaves.
\<close>

theorem renew_unknown_is_noop_witness:
  "renew example_parse service_id ''test'' ''9999999'' registry_cached = registry_cached
   \<and> filter is_Set (calls (etcd (renew example_parse service_id ''nobody'' ''u1''
        (registry_uncached store_down)))) = []
   \<and> filter is_Set (calls (etcd (renew example_parse service_id ''nobody'' ''u1''
        (constructor world_reloading \<lparr>ttl = Some 5, tll = None\<rparr>)))) = []
   \<and> services (renew example_parse service_id ''nobody'' ''u1''
        (constructor world_reloading \<lparr>ttl = Some 5, tll = None\<rparr>)) ''test''
       = Some [example_record]"
proof -
  let ?new = "constructor world_reloading \<lparr>ttl = Some 5, tll = None\<rparr> :: unit service registry"
  have h: "getService example_parse ''test'' registry_cached = (Some [example_record], registry_cached)"
    by (rule getService_from_cache[where j = 0, simplified]) (simp_all add: example_registry_simps)
  have m: "fst (getService example_parse ''nobody'' (registry_uncached store_down)) = None"
    by (subst getService_quiet_exhausted)
       (simp_all add: example_registry_simps store_down_no_nodes)
  have a: "renew example_parse service_id ''test'' ''9999999'' registry_cached = registry_cached"
    using renew_unknown_is_noop[where parse = example_parse and name = "''test''"
          and r = registry_cached and ident = "''9999999''" and stringify = service_id]
    by (simp add: h example_record_def)
  have b: "filter is_Set (calls (etcd (renew example_parse service_id ''nobody'' ''u1''
        (registry_uncached store_down)))) = []"
    using renew_unknown_is_noop[where parse = example_parse and name = "''nobody''"
          and r = "registry_uncached store_down" and ident = "''u1''" and stringify = service_id]
    by (simp add: m example_registry_simps getService_frame)
  have c: "renew example_parse service_id ''nobody'' ''u1'' ?new
        = attempt_state example_parse ''nobody'' ?new 6
     \<and> filter is_Set (calls (etcd (renew example_parse service_id ''nobody'' ''u1'' ?new))) = []"
    using renew_unknown_is_noop[where parse = example_parse and name = "''nobody''"
          and r = ?new and ident = "''u1''" and stringify = service_id]
    by (simp add: reloading_lookup_of_nobody reloading_registry_simps is_Set_def)
  have d: "services (renew example_parse service_id ''nobody'' ''u1'' ?new) ''test''
       = Some [example_record]"
    by (simp add: c[THEN conjunct1] reloading_sixth_read)
  show ?thesis
    by (intro conjI) (fact a, fact b, fact c[THEN conjunct2], fact d)
qed




text \<open>
  C5. The claim lets a value that fails to deserialise propagate, unretried, as a failure
  of its own. In \<open>_getService\<close> the call of \<open>JsonUtils.parse\<close> stands inside the
  \<open>try\<close>, whose \<open>catch\<close> takes every error alike. So, as amended: a read that meets
  such a value fails like any other failed read. While retries are left the lookup goes
  on, from the registry the read leaves, with one retry less; and when all six attempts
  miss the cache and read such a value, the lookup returns \<open>undefined\<close>, which is also
  what it returns when the six replies show no node. A list that a read does return has
  one record for every node of the reply, in the reply's order: no node is left out. In
  the options lookup the value is parsed in the store's callback, outside any \<open>try\<close>:
  the exception leaves the callback, nothing is retried, and the promise stays pending.
\<close>

theorem malformed_record_is_retried:
  "(malformed parse result \<longrightarrow> getService_read parse result = Inl ParseFailure)
   \<and> (j < 5 \<and> (\<forall>i < j. attempt_failed parse name r i)
        \<and> cache_miss (attempt_state parse name r j) name
        \<and> malformed parse (nth_reply r (path_join [SERVICES_KEY, name]) j) \<longrightarrow>
       getService parse name r
         = getService_priv parse (4 - int j) name (attempt_state parse name r (Suc j)))
   \<and> ((\<forall>i < 6. cache_miss (attempt_state parse name r i) name
                 \<and> malformed parse (nth_reply r (path_join [SERVICES_KEY, name]) i)) \<longrightarrow>
       getService parse name r = (None, attempt_state parse name r 6))
   \<and> ((\<forall>i < 6. cache_miss (attempt_state parse name r i) name
                 \<and> no_nodes (nth_reply r (path_join [SERVICES_KEY, name]) i)) \<longrightarrow>
       getService parse name r = (None, attempt_state parse name r 6))
   \<and> (j < 6 \<and> (\<forall>i < j. attempt_failed parse name r i)
        \<and> cache_miss (attempt_state parse name r j) name
        \<and> \<not> no_nodes (nth_reply r (path_join [SERVICES_KEY, name]) j)
        \<and> \<not> malformed parse (nth_reply r (path_join [SERVICES_KEY, name]) j) \<longrightarrow>
       (\<exists>nodes. getService parse name r = (Some nodes, attempt_state parse name r (Suc j))
          \<and> length nodes = length (reply_nodes (nth_reply r (path_join [SERVICES_KEY, name]) j))
          \<and> map (\<lambda>x. parse (node_value x))
               (reply_nodes (nth_reply r (path_join [SERVICES_KEY, name]) j)) = map Some nodes))
   \<and> (nth_reply r (path_join [SERVICES_OPTIONS_KEY, name]) 0
          = \<lparr>err = None, body = Some \<lparr>node = Some nd\<rparr>\<rparr>
        \<and> parse_options (node_value nd) = None \<longrightarrow>
       getServiceOptions_priv (Suc fuel) parse_options name r
         = (Thrown, Pending, add_calls [Get (path_join [SERVICES_OPTIONS_KEY, name]) False] r))"
proof (intro conjI impI)
  assume "nth_reply r (path_join [SERVICES_OPTIONS_KEY, name]) 0
          = \<lparr>err = None, body = Some \<lparr>node = Some nd\<rparr>\<rparr>
        \<and> parse_options (node_value nd) = None"
  then show "getServiceOptions_priv (Suc fuel) parse_options name r
         = (Thrown, Pending, add_calls [Get (path_join [SERVICES_OPTIONS_KEY, name]) False] r)"
    by (simp add: getServiceOptions_priv_unparsed)
next
  assume "malformed parse result"
  then show "getService_read parse result = Inl ParseFailure" by (rule malformed_read)
next
  assume a: "j < 5 \<and> (\<forall>i < j. attempt_failed parse name r i)
        \<and> cache_miss (attempt_state parse name r j) name
        \<and> malformed parse (nth_reply r (path_join [SERVICES_KEY, name]) j)"
  then have "attempt_failed parse name r j" by (simp add: attempt_failed_def)
  with a have "\<forall>i < Suc j. attempt_failed parse name r i" by (auto simp: less_Suc_eq)
  moreover have "Suc j \<le> nat 5" using a by simp
  ultimately have "Suc j \<le> nat 5" "\<forall>i < Suc j. attempt_failed parse name r i" by simp_all
  then have "getService_priv parse 5 name r
      = getService_priv parse (5 - int (Suc j)) name (attempt_state parse name r (Suc j))"
    by (rule getService_priv_prefix)
  moreover have "5 - int (Suc j) = 4 - int j" by simp
  ultimately show "getService parse name r
         = getService_priv parse (4 - int j) name (attempt_state parse name r (Suc j))"
    unfolding getService_def by (simp only:)
next
  assume "\<forall>i < 6. cache_miss (attempt_state parse name r i) name
                 \<and> malformed parse (nth_reply r (path_join [SERVICES_KEY, name]) i)"
  then have "\<forall>i < 6. attempt_failed parse name r i" by (simp add: attempt_failed_def)
  then show "getService parse name r = (None, attempt_state parse name r 6)"
    by (rule getService_exhausted)
next
  assume "\<forall>i < 6. cache_miss (attempt_state parse name r i) name
                 \<and> no_nodes (nth_reply r (path_join [SERVICES_KEY, name]) i)"
  then have "\<forall>i < 6. attempt_failed parse name r i" by (simp add: attempt_failed_def)
  then show "getService parse name r = (None, attempt_state parse name r 6)"
    by (rule getService_exhausted)
next
  let ?reply = "nth_reply r (path_join [SERVICES_KEY, name]) j"
  assume a: "j < 6 \<and> (\<forall>i < j. attempt_failed parse name r i)
        \<and> cache_miss (attempt_state parse name r j) name
        \<and> \<not> no_nodes ?reply \<and> \<not> malformed parse ?reply"
  then have "\<not> isl (getService_read parse ?reply)" by (simp add: getService_read_Inl)
  then obtain nodes where "getService_read parse ?reply = Inr nodes"
    by (cases "getService_read parse ?reply") auto
  then have l: "lists_records parse ?reply nodes" by (simp add: getService_read_Inr)
  have g: "getService parse name r = (Some nodes, attempt_state parse name r (Suc j))"
    using a l by (intro getService_from_read) simp_all
  have m: "map (\<lambda>x. parse (node_value x)) (reply_nodes ?reply) = map Some nodes"
    using l by (rule lists_records_keeps_all)
  then have "length (map (\<lambda>x. parse (node_value x)) (reply_nodes ?reply)) = length (map Some nodes)"
    by (rule arg_cong)
  then have "length nodes = length (reply_nodes ?reply)" by simp
  with g m show "\<exists>nodes. getService parse name r = (Some nodes, attempt_state parse name r (Suc j))
          \<and> length nodes = length (reply_nodes ?reply)
          \<and> map (\<lambda>x. parse (node_value x)) (reply_nodes ?reply) = map Some nodes"
    by blast
qed

text \<open>
  A store whose record does not deserialise, read for the name of the record and for
  another name; a store whose record deserialises from the second read on, where the
  lookup returns the record after two reads and nothing tells of the first; and the
  options lookup on options that do not deserialise.
\<close>

theorem malformed_record_is_retried_witness:
  "getService example_parse ''test'' (registry_uncached (store_holding ''garbage''))
     = (None, add_calls (replicate 6 (GetSync ''services/test'' True))
                (registry_uncached (store_holding ''garbage'')))
   \<and> getService_read example_parse (store_holding ''garbage'' 0 ''services/test'') = Inl ParseFailure
   \<and> getService example_parse ''nobody'' (registry_uncached (store_holding ''garbage''))
     = (None, add_calls (replicate 6 (GetSync ''services/nobody'' True))
                (registry_uncached (store_holding ''garbage'')))
   \<and> getService example_parse ''test'' (registry_uncached store_mending)
     = (Some [example_record],
        add_calls [GetSync ''services/test'' True, GetSync ''services/test'' True]
          (registry_uncached store_mending))
   \<and> getService example_parse ''test'' (registry_uncached (store_holding ''u1''))
     = (Some [example_record],
        add_calls [GetSync ''services/test'' True] (registry_uncached (store_holding ''u1'')))
   \<and> getServiceOptions_priv 1 example_parse_options ''test''
         (registry_uncached (store_holding_options ''garbage''))
       = (Thrown, Pending,
          add_calls [Get ''services-options/test'' False]
            (registry_uncached (store_holding_options ''garbage'')))"
proof -
  have o: "store_holding_options ''garbage'' 0 ''services-options/test''
       = \<lparr>err = None, body = Some \<lparr>node = Some (Node ''services-options/test'' (Some ''garbage'') None)\<rparr>\<rparr>"
      "example_parse_options (node_value (Node ''services-options/test'' (Some ''garbage'') None)) = None"
    by (simp_all add: store_holding_options_def example_parse_options_def)
  have k: "path_join [SERVICES_KEY, ''nobody''] = ''services/nobody''"
    by (simp add: path_join2_plain plain_services plain_segment_def SERVICES_KEY_def)
  have quiet: "attempt_state example_parse name (registry_uncached hosts) i
      = add_calls (replicate i (GetSync (path_join [SERVICES_KEY, name]) True)) (registry_uncached hosts)"
    for hosts name i
    by (rule attempt_state_quiet) (simp add: example_registry_simps)
  have n: "no_nodes (store_holding ''garbage'' i ''services/nobody'')" for i
    by (simp add: store_holding_def no_nodes_def)
  have good: "\<not> no_nodes (store_holding ''u1'' i ''services/test'')"
    "\<not> malformed example_parse (store_holding ''u1'' i ''services/test'')"
    "reply_nodes (store_holding ''u1'' i ''services/test'') = [Node ''services/test/u1'' (Some ''u1'') None]"
    "lists_records example_parse (store_holding ''u1'' i ''services/test'') [example_record]" for i
    by (simp_all add: store_holding_def no_nodes_def malformed_def reply_nodes_def
        lists_records_def example_parse_def)
  have mend: "store_mending 0 = store_holding ''garbage'' 0"
    "store_mending (Suc 0) = store_holding ''u1'' (Suc 0)"
    by (simp_all add: store_mending_def fun_eq_iff)
  note here = malformed_record_is_retried[where parse = example_parse
      and parse_options = example_parse_options and fuel = 0
      and nd = "Node ''services-options/test'' (Some ''garbage'') None"]
  have a: "getService example_parse ''test'' (registry_uncached (store_holding ''garbage''))
     = (None, attempt_state example_parse ''test'' (registry_uncached (store_holding ''garbage'')) 6)"
    using here[where name = "''test''" and r = "registry_uncached (store_holding ''garbage'')"
        and result = "store_holding ''garbage'' 0 ''services/test''" and j = 0,
        THEN conjunct2, THEN conjunct2, THEN conjunct1]
    by (simp add: quiet example_registry_simps services_test_key store_holding_garbage
        del: attempt_state.simps(2))
  have b: "getService_read example_parse (store_holding ''garbage'' 0 ''services/test'') = Inl ParseFailure"
    using here[where name = "''test''" and r = "registry_uncached (store_holding ''garbage'')"
        and result = "store_holding ''garbage'' 0 ''services/test''" and j = 0,
        THEN conjunct1]
    by (simp add: store_holding_garbage)
  have c: "getService example_parse ''nobody'' (registry_uncached (store_holding ''garbage''))
     = (None, attempt_state example_parse ''nobody'' (registry_uncached (store_holding ''garbage'')) 6)"
    using here[where name = "''nobody''" and r = "registry_uncached (store_holding ''garbage'')"
        and result = "store_holding ''garbage'' 0 ''services/test''" and j = 0,
        THEN conjunct2, THEN conjunct2, THEN conjunct2, THEN conjunct1]
    by (simp add: quiet example_registry_simps k n del: attempt_state.simps(2))
  have d1: "getService example_parse ''test'' (registry_uncached store_mending)
     = getService_priv example_parse 4 ''test''
         (attempt_state example_parse ''test'' (registry_uncached store_mending) (Suc 0))"
    using here[where name = "''test''" and r = "registry_uncached store_mending"
        and result = "store_holding ''garbage'' 0 ''services/test''" and j = 0,
        THEN conjunct2, THEN conjunct1]
    by (simp add: example_registry_simps services_test_key store_holding_garbage mend
        del: attempt_state.simps(2))
  have d2: "getService_priv example_parse 4 ''test''
         (add_calls [GetSync ''services/test'' True] (registry_uncached store_mending))
     = (Some [example_record],
        attempt_state example_parse ''test''
          (add_calls [GetSync ''services/test'' True] (registry_uncached store_mending)) (Suc 0))"
    by (rule getService_priv_from_read[where j = 0])
       (simp_all add: example_registry_simps services_test_key nth_reply_def mend good)
  have d: "getService example_parse ''test'' (registry_uncached store_mending)
     = (Some [example_record],
        add_calls [GetSync ''services/test'' True, GetSync ''services/test'' True]
          (registry_uncached store_mending))"
    unfolding d1 quiet[of _ _ "Suc 0"]
    by (simp add: services_test_key d2 after_read_quiet example_registry_simps)
  have e: "getService example_parse ''test'' (registry_uncached (store_holding ''u1''))
     = (Some [example_record],
        attempt_state example_parse ''test'' (registry_uncached (store_holding ''u1'')) (Suc 0))"
    using here[where name = "''test''" and r = "registry_uncached (store_holding ''u1'')"
        and result = "store_holding ''garbage'' 0 ''services/test''" and j = 0,
        THEN conjunct2, THEN conjunct2, THEN conjunct2, THEN conjunct2, THEN conjunct1]
    by (auto simp: example_registry_simps services_test_key good example_parse_def
        Cons_eq_map_conv simp del: attempt_state.simps(2))
  have f: "getServiceOptions_priv 1 example_parse_options ''test''
         (registry_uncached (store_holding_options ''garbage''))
       = (Thrown, Pending,
          add_calls [Get ''services-options/test'' False]
            (registry_uncached (store_holding_options ''garbage'')))"
    using here[where name = "''test''" and r = "registry_uncached (store_holding_options ''garbage'')"
        and result = "store_holding ''garbage'' 0 ''services/test''" and j = 0,
        THEN conjunct2, THEN conjunct2, THEN conjunct2, THEN conjunct2, THEN conjunct2] o
    by (simp add: example_registry_simps options_test_key)
  show ?thesis
    unfolding a b c d e f
    by (simp add: quiet[simplified] services_test_key k del: attempt_state.simps(2))
qed

theorem malformed_record_collapses_into_absence:
  "fst (getService example_parse ''test'' (registry_uncached (store_holding ''garbage''))) = None
   \<and> calls (etcd (snd (getService example_parse ''test'' (registry_uncached (store_holding ''garbage'')))))
       = replicate 6 (GetSync ''services/test'' True)
   \<and> getService example_parse ''test'' (registry_uncached (store_holding ''garbage''))
       = (None, add_calls (replicate 6 (GetSync ''services/test'' True))
                  (registry_uncached (store_holding ''garbage'')))
   \<and> fst (getService example_parse ''nobody'' (registry_uncached (store_holding ''garbage''))) = None
   \<and> reply_nodes (store_holding ''garbage'' 0 ''services/test'')
       = [Node ''services/test/u1'' (Some ''garbage'') None]
   \<and> example_parse (Some ''garbage'') = None"
proof -
  have k: "path_join [SERVICES_KEY, ''nobody''] = ''services/nobody''"
    by (simp add: path_join2_plain plain_services plain_segment_def SERVICES_KEY_def)
  have g: "getService example_parse ''test'' (registry_uncached (store_holding ''garbage''))
       = (None, add_calls (replicate 6 (GetSync ''services/test'' True))
                  (registry_uncached (store_holding ''garbage'')))"
    by (subst getService_quiet_exhausted)
       (simp_all add: example_registry_simps services_test_key store_holding_garbage)
  have n: "fst (getService example_parse ''nobody'' (registry_uncached (store_holding ''garbage''))) = None"
    by (subst getService_quiet_exhausted)
       (simp_all add: example_registry_simps k store_holding_def no_nodes_def)
  show ?thesis
    by (simp add: g n example_registry_simps reply_nodes_def store_holding_def example_parse_def)
qed

text \<open>
  C4. The claim gives every retried read a bounded number of attempts, a backoff delay
  between them, and an end after the last. \<open>_getService\<close> retries at once, without a
  timer, and \<open>_getServiceOptions\<close> resolves the promise when its retries are used up but
  has no \<open>return\<close> after that \<open>resolve\<close>. As amended, and silent on what the options
  lookup does after it has resolved: \<open>getService\<close> adds between no and six reads of the
  name's key to the log and nothing between them, six when it looked in the store and
  returns \<open>undefined\<close>. The options lookup, while its reads fail, sets after each
  failure the timer of the next attempt, of 0, 500, 1000, ... milliseconds (\<open>500 * i\<close>
  after the failure number \<open>i\<close>, counted from 0), and keeps the promise pending through
  ten failures; the eleventh failure resolves it with \<open>undefined\<close>. A read that finds the
  key after at most ten failures resolves the promise with the parsed value and leaves no
  timer.
\<close>

theorem retried_reads_budget:
  "(\<exists>k \<le> 6. calls (etcd (snd (getService parse name r)))
        = calls (etcd r) @ replicate k (GetSync (path_join [SERVICES_KEY, name]) True))
   \<and> (cache_miss r name \<and> fst (getService parse name r) = None \<longrightarrow>
        calls (etcd (snd (getService parse name r)))
          = calls (etcd r) @ replicate 6 (GetSync (path_join [SERVICES_KEY, name]) True))
   \<and> (n \<le> 10
        \<and> (\<forall>i < n. read_failed (nth_reply r (path_join [SERVICES_OPTIONS_KEY, name]) (2 * i))) \<longrightarrow>
        fst (snd (getServiceOptions_priv n parse_options name r)) = Pending
        \<and> calls (etcd (snd (snd (getServiceOptions_priv n parse_options name r))))
            = calls (etcd r) @ failed_attempts (path_join [SERVICES_OPTIONS_KEY, name]) n)
   \<and> ((\<forall>i < 11. read_failed (nth_reply r (path_join [SERVICES_OPTIONS_KEY, name]) (2 * i))) \<longrightarrow>
        fst (snd (getServiceOptions_priv 11 parse_options name r)) = Resolved None)
   \<and> (n \<le> 10
        \<and> (\<forall>i < n. read_failed (nth_reply r (path_join [SERVICES_OPTIONS_KEY, name]) (2 * i)))
        \<and> nth_reply r (path_join [SERVICES_OPTIONS_KEY, name]) (2 * n)
            = \<lparr>err = None, body = Some \<lparr>node = Some nd\<rparr>\<rparr>
        \<and> parse_options (node_value nd) = Some v \<longrightarrow>
        getServiceOptions_priv (Suc n) parse_options name r
          = (Nothing, Resolved (Some v),
             add_calls (failed_attempts (path_join [SERVICES_OPTIONS_KEY, name]) n
                        @ [Get (path_join [SERVICES_OPTIONS_KEY, name]) False]) r))"
proof (intro conjI impI)
  from getService_reads[of parse name r]
  show "\<exists>k \<le> 6. calls (etcd (snd (getService parse name r)))
        = calls (etcd r) @ replicate k (GetSync (path_join [SERVICES_KEY, name]) True)"
    by auto
next
  assume "cache_miss r name \<and> fst (getService parse name r) = None"
  with getService_outcome[of parse name r]
  show "calls (etcd (snd (getService parse name r)))
          = calls (etcd r) @ replicate 6 (GetSync (path_join [SERVICES_KEY, name]) True)"
    by auto
next
  assume a: "n \<le> 10
        \<and> (\<forall>i < n. read_failed (nth_reply r (path_join [SERVICES_OPTIONS_KEY, name]) (2 * i)))"
  then have f: "\<forall>i < n. read_failed (nth_reply r (path_join [SERVICES_OPTIONS_KEY, name]) (2 * i))"
    by simp
  from a show "fst (snd (getServiceOptions_priv n parse_options name r)) = Pending"
    by (simp add: getServiceOptions_priv_failed[OF f])
  show "calls (etcd (snd (snd (getServiceOptions_priv n parse_options name r))))
            = calls (etcd r) @ failed_attempts (path_join [SERVICES_OPTIONS_KEY, name]) n"
    by (simp add: getServiceOptions_priv_failed[OF f])
next
  assume f: "\<forall>i < 11. read_failed (nth_reply r (path_join [SERVICES_OPTIONS_KEY, name]) (2 * i))"
  show "fst (snd (getServiceOptions_priv 11 parse_options name r)) = Resolved None"
    by (simp add: getServiceOptions_priv_failed[OF f])
next
  assume a: "n \<le> 10
        \<and> (\<forall>i < n. read_failed (nth_reply r (path_join [SERVICES_OPTIONS_KEY, name]) (2 * i)))
        \<and> nth_reply r (path_join [SERVICES_OPTIONS_KEY, name]) (2 * n)
            = \<lparr>err = None, body = Some \<lparr>node = Some nd\<rparr>\<rparr>
        \<and> parse_options (node_value nd) = Some v"
  then have f: "\<forall>i < n. read_failed (nth_reply r (path_join [SERVICES_OPTIONS_KEY, name]) (2 * i))"
    and n: "n \<le> 10"
    and r: "nth_reply r (path_join [SERVICES_OPTIONS_KEY, name]) (2 * n)
            = \<lparr>err = None, body = Some \<lparr>node = Some nd\<rparr>\<rparr>"
    and v: "parse_options (node_value nd) = Some v"
    by simp_all
  show "getServiceOptions_priv (Suc n) parse_options name r
          = (Nothing, Resolved (Some v),
             add_calls (failed_attempts (path_join [SERVICES_OPTIONS_KEY, name]) n
                        @ [Get (path_join [SERVICES_OPTIONS_KEY, name]) False]) r)"
    using f n r v by (rule getServiceOptions_priv_found)
qed

theorem retried_reads_budget_witness:
  "fst (snd (getServiceOptions_priv 3 (\<lambda>v. v) ''test'' (registry_uncached store_down))) = Pending
   \<and> calls (etcd (snd (snd (getServiceOptions_priv 3 (\<lambda>v. v) ''test'' (registry_uncached store_down)))))
       = [Get ''services-options/test'' False, SetTimeout 0,
          Get ''services-options/test'' False, SetTimeout 500,
          Get ''services-options/test'' False, SetTimeout 1000]
   \<and> fst (snd (getServiceOptions_priv 11 (\<lambda>v. v) ''test'' (registry_uncached store_down)))
       = Resolved None
   \<and> calls (etcd (snd (getService example_parse ''test'' (registry_uncached store_down))))
       = replicate 6 (GetSync ''services/test'' True)
   \<and> fst (getServiceOptions_priv 3 example_parse_options ''test'' (registry_uncached store_recovering))
       = Nothing
   \<and> fst (snd (getServiceOptions_priv 3 example_parse_options ''test''
                  (registry_uncached store_recovering)))
       = Resolved (Some ''{a:1}'')
   \<and> calls (etcd (snd (snd (getServiceOptions_priv 3 example_parse_options ''test''
                  (registry_uncached store_recovering)))))
       = [Get ''services-options/test'' False, SetTimeout 0,
          Get ''services-options/test'' False, SetTimeout 500,
          Get ''services-options/test'' False]"
proof -
  have m: "fst (getService example_parse ''test'' (registry_uncached store_down)) = None"
    by (subst getService_quiet_exhausted)
       (simp_all add: example_registry_simps store_down_no_nodes)
  have fa: "failed_attempts ''services-options/test'' 3
       = [Get ''services-options/test'' False, SetTimeout 0,
          Get ''services-options/test'' False, SetTimeout 500,
          Get ''services-options/test'' False, SetTimeout 1000]"
      "failed_attempts ''services-options/test'' 2
       = [Get ''services-options/test'' False, SetTimeout 0,
          Get ''services-options/test'' False, SetTimeout 500]"
    by (simp_all add: failed_attempts_def upt_rec)
  have rec: "\<forall>i < 2. read_failed (store_recovering (2 * i) ''services-options/test'')"
      "store_recovering 4 ''services-options/test''
         = \<lparr>err = None, body = Some \<lparr>node = Some (Node ''services-options/test'' (Some ''{a:1}'') None)\<rparr>\<rparr>"
      "example_parse_options (node_value (Node ''services-options/test'' (Some ''{a:1}'') None))
         = Some ''{a:1}''"
    by (simp_all add: store_recovering_def store_down_failed store_holding_options_def
        example_parse_options_def)
  have three: "Suc 2 = 3" by simp
  show ?thesis
    using retried_reads_budget[where r = "registry_uncached store_down" and name = "''test''"
        and parse = example_parse and parse_options = "\<lambda>v. v" and n = 3]
      retried_reads_budget[where r = "registry_uncached store_recovering" and name = "''test''"
        and parse = example_parse and parse_options = example_parse_options and n = 2
        and nd = "Node ''services-options/test'' (Some ''{a:1}'') None" and v = "''{a:1}''"]
      rec
    by (simp add: m fa three example_registry_simps services_test_key options_test_key
        store_down_failed)
qed

theorem retried_reads_without_delay_or_end:
  "calls (etcd (snd (getService example_parse ''test'' (registry_uncached store_down))))
     = [GetSync ''services/test'' True, GetSync ''services/test'' True,
        GetSync ''services/test'' True, GetSync ''services/test'' True,
        GetSync ''services/test'' True, GetSync ''services/test'' True]
   \<and> getServiceOptions_priv 11 (\<lambda>v. v) ''test'' (registry_uncached store_down)
     = (Scheduled (- 1), Resolved None,
        add_calls (failed_attempts ''services-options/test'' 11) (registry_uncached store_down))
   \<and> last (failed_attempts ''services-options/test'' 11) = SetTimeout 5000
   \<and> getServiceOptions_priv 12 (\<lambda>v. v) ''test'' (registry_uncached store_down)
     = (Scheduled (- 2), Resolved None,
        add_calls (failed_attempts ''services-options/test'' 12) (registry_uncached store_down))
   \<and> length (filter (\<lambda>c. c = Get ''services-options/test'' False)
        (failed_attempts ''services-options/test'' 12)) = 12"
proof -
  have g: "calls (etcd (snd (getService example_parse ''test'' (registry_uncached store_down))))
     = replicate 6 (GetSync ''services/test'' True)"
    by (subst getService_quiet_exhausted)
       (simp_all add: example_registry_simps store_down_no_nodes services_test_key)
  have six: "replicate 6 (GetSync ''services/test'' True)
     = [GetSync ''services/test'' True, GetSync ''services/test'' True,
        GetSync ''services/test'' True, GetSync ''services/test'' True,
        GetSync ''services/test'' True, GetSync ''services/test'' True]"
    by (simp add: numeral_eq_Suc)
  have d: "\<forall>i < n. read_failed (nth_reply (registry_uncached store_down)
             (path_join [SERVICES_OPTIONS_KEY, ''test'']) (2 * i))" for n
    by (simp add: example_registry_simps store_down_failed)
  have o11: "getServiceOptions_priv 11 (\<lambda>v. v) ''test'' (registry_uncached store_down)
     = (Scheduled (- 1), Resolved None,
        add_calls (failed_attempts ''services-options/test'' 11) (registry_uncached store_down))"
    using getServiceOptions_priv_failed[OF d[of 11], of "\<lambda>v. v"] by (simp add: options_test_key)
  have o12: "getServiceOptions_priv 12 (\<lambda>v. v) ''test'' (registry_uncached store_down)
     = (Scheduled (- 2), Resolved None,
        add_calls (failed_attempts ''services-options/test'' 12) (registry_uncached store_down))"
    using getServiceOptions_priv_failed[OF d[of 12], of "\<lambda>v. v"] by (simp add: options_test_key)
  have e: "(11::nat) = Suc 10" by simp
  have l: "last (failed_attempts ''services-options/test'' 11) = SetTimeout 5000"
    unfolding e failed_attempts_Suc by simp
  have c: "length (filter (\<lambda>c. c = Get ''services-options/test'' False)
        (failed_attempts ''services-options/test'' n)) = n" for n
    by (induction n) (simp_all add: failed_attempts_Suc, simp add: failed_attempts_def)
  show ?thesis
    using g o11 o12 l c[of 12] by (simp only: six)
qed

text \<open>
  C10. In lib/index.js \<open>register\<close> writes the options under their own key, and that
  write carries no TTL whatever the \<open>ttl\<close> option is. So, with a \<open>ttl\<close> configured and a
  store that holds what one registration wrote at the time \<open>t0\<close>: before the lease
  runs out a registry that reads this store finds the record; from then on \<open>getService\<close>
  returns \<open>undefined\<close>, while the options lookup still resolves, at its first attempt,
  to the options that were registered. The replies to the reloads of the cache come from
  the same store, which lists under a directory the keys directly below it and so has
  nothing to list under \<open>services\<close>: whatever arrives during the reads, the cache stays
  empty for the name.
\<close>

theorem options_outlive_records:
  "calls (etcd (snd (register stringify stringify_options uuid name conn opts r)))
     = calls (etcd r) @
       [Set (path_join [SERVICES_KEY, name, uuid])
            (stringify \<lparr>service_id = uuid, service_name = name, connection = conn\<rparr>)
            \<lparr>set_maxRetries = 3, set_ttl = ttl (options r)\<rparr>,
        Set (path_join [SERVICES_OPTIONS_KEY, name]) (stringify_options opts)
            \<lparr>set_maxRetries = 3, set_ttl = None\<rparr>]
   \<and> (ttl (options r) = Some T \<and> plain_segment name \<and> plain_segment uuid
        \<and> parse_options (Some (stringify_options opts)) = Some opts
        \<and> parse (Some (stringify \<lparr>service_id = uuid, service_name = name, connection = conn\<rparr>))
            = Some \<lparr>service_id = uuid, service_name = name, connection = conn\<rparr>
        \<and> writes = drop (length (calls (etcd r)))
             (calls (etcd (snd (register stringify stringify_options uuid name conn opts r))))
        \<and> cache_miss r2 name
        \<and> reply (etcd r2) = (\<lambda>n. store_read t (store_apply t0 writes [])) \<longrightarrow>
        (t < t0 + nat T \<longrightarrow>
           fst (getService parse name r2)
             = Some [\<lparr>service_id = uuid, service_name = name, connection = conn\<rparr>])
        \<and> (t0 + nat T \<le> t \<longrightarrow> fst (getService parse name r2) = None)
        \<and> fst (snd (getServiceOptions_priv 1 parse_options name r2)) = Resolved (Some opts)
        \<and> fst (getServiceOptions_priv 1 parse_options name r2) = Nothing)"
proof (intro conjI impI)
  show "calls (etcd (snd (register stringify stringify_options uuid name conn opts r)))
     = calls (etcd r) @
       [Set (path_join [SERVICES_KEY, name, uuid])
            (stringify \<lparr>service_id = uuid, service_name = name, connection = conn\<rparr>)
            \<lparr>set_maxRetries = 3, set_ttl = ttl (options r)\<rparr>,
        Set (path_join [SERVICES_OPTIONS_KEY, name]) (stringify_options opts)
            \<lparr>set_maxRetries = 3, set_ttl = None\<rparr>]"
    by (simp add: register_calls)
next
  assume h: "ttl (options r) = Some T \<and> plain_segment name \<and> plain_segment uuid
        \<and> parse_options (Some (stringify_options opts)) = Some opts
        \<and> parse (Some (stringify \<lparr>service_id = uuid, service_name = name, connection = conn\<rparr>))
            = Some \<lparr>service_id = uuid, service_name = name, connection = conn\<rparr>
        \<and> writes = drop (length (calls (etcd r)))
             (calls (etcd (snd (register stringify stringify_options uuid name conn opts r))))
        \<and> cache_miss r2 name
        \<and> reply (etcd r2) = (\<lambda>n. store_read t (store_apply t0 writes []))"
  then have l: "(t < t0 + nat T \<longrightarrow>
           fst (getService parse name r2)
             = Some [\<lparr>service_id = uuid, service_name = name, connection = conn\<rparr>])
        \<and> (t0 + nat T \<le> t \<longrightarrow> fst (getService parse name r2) = None)
        \<and> fst (snd (getServiceOptions_priv 1 parse_options name r2)) = Resolved (Some opts)
        \<and> fst (getServiceOptions_priv 1 parse_options name r2) = Nothing"
    using registered_then_expired[where r = r and T = T and name = name and uuid = uuid
        and parse_options = parse_options and stringify_options = stringify_options
        and opts = opts and parse = parse and stringify = stringify and conn = conn
        and writes = writes and ?r2.0 = r2 and t = t and ?t0.0 = t0]
    by blast
  { assume "t < t0 + nat T"
    with l show "fst (getService parse name r2)
             = Some [\<lparr>service_id = uuid, service_name = name, connection = conn\<rparr>]" by blast }
  { assume "t0 + nat T \<le> t"
    with l show "fst (getService parse name r2) = None" by blast }
  from l show "fst (snd (getServiceOptions_priv 1 parse_options name r2)) = Resolved (Some opts)"
    by blast
  from l show "fst (getServiceOptions_priv 1 parse_options name r2) = Nothing"
    by blast
qed

theorem options_outlive_records_witness:
  "fst (getService example_parse ''test''
          (registry_uncached (\<lambda>n. store_read 4 (store_apply 0 example_writes [])))) = Some [example_record]
   \<and> fst (getService example_parse ''test''
          (registry_uncached (\<lambda>n. store_read 6 (store_apply 0 example_writes [])))) = None
   \<and> fst (snd (getServiceOptions_priv 1 (\<lambda>v. v) ''test''
          (registry_uncached (\<lambda>n. store_read 6 (store_apply 0 example_writes [])))))
       = Resolved (Some ''{a:1}'')"
proof -
  have p: "plain_segment ''test''" "plain_segment ''u1''"
    by (simp_all add: plain_segment_def)
  have w: "example_writes = drop (length (calls (etcd (registry_uncached store_down))))
           (calls (etcd (snd (register service_id (\<lambda>x. x) ''u1'' ''test'' () ''{a:1}''
              (registry_uncached store_down)))))"
    by (simp add: example_writes_def example_registry_simps)
  have rt: "example_parse (Some (service_id \<lparr>service_id = ''u1'', service_name = ''test'', connection = ()\<rparr>))
           = Some \<lparr>service_id = ''u1'', service_name = ''test'', connection = ()\<rparr>"
    by (simp add: example_parse_def example_record_def)
  have t: "ttl (options (registry_uncached store_down)) = Some 5"
    by (simp add: example_registry_simps)
  have o: "(\<lambda>v. v) (Some ((\<lambda>x. x) ''{a:1}'')) = Some ''{a:1}''"
    by simp
  have late: "(0::nat) + nat 5 \<le> 6" and early: "(4::nat) < 0 + nat 5"
    by simp_all
  note inst = options_outlive_records[where r = "registry_uncached store_down" and T = 5
      and name = "''test''" and uuid = "''u1''" and parse_options = "\<lambda>v. v"
      and stringify_options = "\<lambda>x. x" and opts = "''{a:1}''" and parse = example_parse
      and stringify = service_id and conn = "()" and writes = example_writes and ?t0.0 = 0]
  show ?thesis
    using inst[where t = 6 and ?r2.0 = "registry_uncached (\<lambda>n. store_read 6 (store_apply 0 example_writes []))"]
      inst[where t = 4 and ?r2.0 = "registry_uncached (\<lambda>n. store_read 4 (store_apply 0 example_writes []))"]
      t p rt w
    by (simp add: example_registry_simps example_record_def)
qed

end
